theory Spec2Isabelle
  imports Complex_Main
begin

section \<open>Data model of \<open>auratrac_lite.py\<close>\<close>

text \<open>
  The dataclass \<open>Settings\<close>. The style attributes (font, colours, opacity) are read by the
  overlay window only and are left out; every attribute the counter thread reads is kept
  under its own name. \<open>input_type\<close> is the literal type \<open>"keyboard" | "mouse"\<close>.
\<close>

datatype input_type = Keyboard | Mouse

record Settings =
  input_type :: input_type
  input_code :: int
  is_rapid_mode :: bool
  amount :: int
  burst_idle_ms :: int
  is_paused :: bool
  count :: int

text \<open>The dataclass defaults, \<open>Settings()\<close>.\<close>

definition default_settings :: Settings where
  "default_settings =
     \<lparr> input_type = Keyboard, input_code = 44, is_rapid_mode = True, amount = 1,
       burst_idle_ms = 0, is_paused = False, count = 0 \<rparr>"

text \<open>
  The messages put on \<open>update_q\<close> are pairs of a tag and a value. The status texts are
  f-strings; a status is modelled by its template together with the values of its holes.
\<close>

datatype status_text =
    Core_started
  | Rapid_Mode_plus_1
  | Burst_Completed int int
  | Multi_Click_Count int
  | Burst_Count_First_Press
  | Multi_Burst_Count int
  | Tracking_Key int
  | Tracking_Mouse int

datatype notification =
    Count_msg int
  | Status_msg status_text
  | Paused_msg bool
  | Sequence_presses_msg int

datatype error = ZeroDivisionError

text \<open>
  The attributes of a \<open>CounterCore\<close> object. Timestamps are \<open>time.time() * 1000\<close>,
  milliseconds as a fractional number, with \<open>0.0\<close> standing for "no event yet"; they are
  modelled as real numbers, with exact subtraction and comparison. The two hook handles
  are modelled by whether a hook is installed. A queue is the list of its pending
  messages, oldest first.
\<close>

record CounterCore =
  settings :: Settings
  count :: int
  is_running :: bool
  update_q :: "notification list"
  event_q :: "string list"
  setting_q :: "Settings list"
  sequence_presses :: int
  last_press_time :: real
  burst_count_tracker :: int
  last_scroll_time :: real
  key_hook :: bool
  mouse_hook :: bool

definition scroll_debounce_ms :: int where
  "scroll_debounce_ms = 100"

section \<open>The counter thread\<close>

definition update_q_put :: "notification \<Rightarrow> CounterCore \<Rightarrow> CounterCore" where
  "update_q_put m c = c\<lparr>update_q := update_q c @ [m]\<rparr>"

text \<open>\<open>_update_count\<close>: the only place where an event or a hotkey changes the count.\<close>

definition update_count :: "int \<Rightarrow> CounterCore \<Rightarrow> CounterCore" where
  "update_count delta c =
     (if \<not> is_paused (settings c)
      then (let c1 = c\<lparr>count := CounterCore.count c + delta\<rparr>
            in update_q_put (Count_msg (CounterCore.count c1)) c1)
      else c)"

text \<open>
  \<open>_handle_input\<close>, in the source's three steps. Step 2a closes the running sequence after
  an idle gap, step 2b counts the new press into the sequence, step 3 decides whether the
  count advances. The clock reading \<open>current_time\<close> is a parameter.
\<close>

definition sequence_reset :: "real \<Rightarrow> CounterCore \<Rightarrow> CounterCore" where
  "sequence_reset current_time c =
     (let idle_duration = current_time - last_press_time c in
      if burst_idle_ms (settings c) > 0 \<and> last_press_time c \<noteq> 0 then
        if idle_duration > real_of_int (burst_idle_ms (settings c)) then
          (let c1 =
             (if sequence_presses c > 0 then
                (let c0 = c\<lparr>burst_count_tracker := burst_count_tracker c + 1\<rparr>
                 in update_q_put
                      (Status_msg (Burst_Completed (burst_count_tracker c0) (amount (settings c0)))) c0)
              else c)
           in c1\<lparr>sequence_presses := 0\<rparr>)
        else c
      else c)"

definition increment_sequence :: "real \<Rightarrow> CounterCore \<Rightarrow> CounterCore" where
  "increment_sequence current_time c =
     c\<lparr>sequence_presses := sequence_presses c + 1, last_press_time := current_time\<rparr>"

definition prelude :: "real \<Rightarrow> CounterCore \<Rightarrow> CounterCore" where
  "prelude current_time c = increment_sequence current_time (sequence_reset current_time c)"

text \<open>
  Step 3. Python's \<open>%\<close> raises \<open>ZeroDivisionError\<close> for a zero divisor and otherwise agrees
  with \<open>mod\<close> on \<open>int\<close> (both round the quotient down). An exception leaves the attributes
  as they are at that point and skips the rest of the method.
\<close>

definition apply_count_logic :: "CounterCore \<Rightarrow> CounterCore \<times> error option" where
  "apply_count_logic c =
     (if burst_idle_ms (settings c) = 0 then
        if amount (settings c) = 0 then (c, Some ZeroDivisionError)
        else
          (let c1 =
             (if sequence_presses c mod amount (settings c) = 0
              then update_q_put (Status_msg (Multi_Click_Count (amount (settings c))))
                     (update_count 1 c)
              else c)
           in (update_q_put (Sequence_presses_msg (sequence_presses c1)) c1, None))
      else
        (let c1 =
           (if amount (settings c) = 1 then
              if sequence_presses c = 1
              then update_q_put (Status_msg Burst_Count_First_Press) (update_count 1 c)
              else c
            else if amount (settings c) > 1 then
              if sequence_presses c = 1 \<and> burst_count_tracker c \<ge> amount (settings c)
              then (update_q_put (Status_msg (Multi_Burst_Count (amount (settings c))))
                      (update_count 1 c))\<lparr>burst_count_tracker := 0\<rparr>
              else c
            else c)
         in (update_q_put (Sequence_presses_msg (sequence_presses c1)) c1, None)))"

definition handle_input :: "real \<Rightarrow> CounterCore \<Rightarrow> CounterCore \<times> error option" where
  "handle_input current_time c =
     (if is_rapid_mode (settings c) then
        (let c1 = update_count 1 c;
             c2 = c1\<lparr>last_press_time := current_time, sequence_presses := 0,
                     burst_count_tracker := 0\<rparr>
         in (update_q_put (Status_msg Rapid_Mode_plus_1) c2, None))
      else apply_count_logic (prelude current_time c))"

text \<open>
  Successive calls of \<open>_handle_input\<close>, one per clock reading, oldest first. The run ends
  at the first call that raises.
\<close>

fun handle_inputs :: "real list \<Rightarrow> CounterCore \<Rightarrow> CounterCore \<times> error option" where
  "handle_inputs [] c = (c, None)"
| "handle_inputs (t # ts) c =
     (case handle_input t c of
        (c1, None) \<Rightarrow> handle_inputs ts c1
      | (c1, Some e) \<Rightarrow> (c1, Some e))"

subsection \<open>Hook callbacks\<close>

text \<open>The event objects of the \<open>keyboard\<close> and \<open>mouse\<close> packages, as far as the callbacks read them.\<close>

datatype key_event_type = KEY_DOWN | KEY_UP

record KeyboardEvent =
  event_type :: key_event_type
  scan_code :: int

datatype button = LEFT | MIDDLE | RIGHT | X | X2

datatype button_event_type = UP | DOWN | DOUBLE

datatype mouse_event =
    ButtonEvent button_event_type button
  | WheelEvent real
  | MoveEvent

definition key_callback :: "real \<Rightarrow> KeyboardEvent \<Rightarrow> CounterCore \<Rightarrow> CounterCore \<times> error option" where
  "key_callback now event c =
     (if event_type event = KEY_DOWN \<and> scan_code event = input_code (settings c)
      then handle_input now c
      else (c, None))"

fun button_name_map :: "int \<Rightarrow> button option" where
  "button_name_map code =
     (if code = 1 then Some LEFT
      else if code = 2 then Some MIDDLE
      else if code = 3 then Some RIGHT
      else if code = 4 then Some X
      else if code = 5 then Some X2
      else None)"

text \<open>
  \<open>_mouse_callback\<close>. The wheel branch reads the clock itself (\<open>now\<close>) before
  \<open>_handle_input\<close> reads it again (\<open>now'\<close>); the button branch only reaches the second
  reading.
\<close>

fun mouse_callback :: "real \<Rightarrow> real \<Rightarrow> mouse_event \<Rightarrow> CounterCore \<Rightarrow> CounterCore \<times> error option" where
  "mouse_callback now now' (ButtonEvent et b) c =
     (if et = DOWN then
        (case button_name_map (input_code (settings c)) of
           Some target_button_name \<Rightarrow>
             if b = target_button_name then handle_input now' c else (c, None)
         | None \<Rightarrow> (c, None))
      else (c, None))"
| "mouse_callback now now' (WheelEvent delta) c =
     (if (delta > 0 \<and> input_code (settings c) = 10) \<or> (delta < 0 \<and> input_code (settings c) = 11)
      then
        if now - last_scroll_time c < real_of_int scroll_debounce_ms then (c, None)
        else handle_input now' (c\<lparr>last_scroll_time := now\<rparr>)
      else (c, None))"
| "mouse_callback now now' MoveEvent c = (c, None)"

subsection \<open>Hooks, construction and the run loop\<close>

text \<open>
  \<open>HOOK_AVAILABLE\<close> is a module constant fixed at import time; it is the first argument of
  the functions that read it.
\<close>

definition teardown_hooks :: "bool \<Rightarrow> CounterCore \<Rightarrow> CounterCore" where
  "teardown_hooks HOOK_AVAILABLE c =
     (if \<not> HOOK_AVAILABLE then c else c\<lparr>key_hook := False, mouse_hook := False\<rparr>)"

definition setup_hooks :: "bool \<Rightarrow> CounterCore \<Rightarrow> CounterCore" where
  "setup_hooks HOOK_AVAILABLE c =
     (if \<not> HOOK_AVAILABLE then c
      else
        (let c1 = teardown_hooks HOOK_AVAILABLE c in
         case input_type (settings c1) of
           Keyboard \<Rightarrow>
             update_q_put (Status_msg (Tracking_Key (input_code (settings c1))))
               (c1\<lparr>key_hook := True\<rparr>)
         | Mouse \<Rightarrow>
             update_q_put (Status_msg (Tracking_Mouse (input_code (settings c1))))
               (c1\<lparr>mouse_hook := True\<rparr>)))"

text \<open>\<open>CounterCore.__init__\<close>.\<close>

definition init_core :: "bool \<Rightarrow> Settings \<Rightarrow> CounterCore" where
  "init_core HOOK_AVAILABLE s =
     setup_hooks HOOK_AVAILABLE
       \<lparr> settings = s, count = Settings.count s, is_running = True, update_q = [],
         event_q = [], setting_q = [], sequence_presses = 0, last_press_time = 0,
         burst_count_tracker = 0, last_scroll_time = 0, key_hook = False, mouse_hook = False \<rparr>"

text \<open>
  The settings replacement of \<open>run\<close>: what one turn of the loop does with a settings object
  taken from \<open>setting_q\<close>.
\<close>

definition replace_settings :: "bool \<Rightarrow> Settings \<Rightarrow> CounterCore \<Rightarrow> CounterCore" where
  "replace_settings HOOK_AVAILABLE new_settings c =
     (let c1 = c\<lparr>settings := new_settings, count := Settings.count new_settings,
                 sequence_presses := 0, burst_count_tracker := 0\<rparr>;
          c2 = setup_hooks HOOK_AVAILABLE c1;
          c3 = update_q_put (Count_msg (CounterCore.count c2)) c2
      in update_q_put (Paused_msg (is_paused (settings c3))) c3)"

text \<open>One turn of the \<open>while\<close> loop of \<open>run\<close>: \<open>get_nowait\<close> on an empty queue is passed over.\<close>

definition run_turn :: "bool \<Rightarrow> CounterCore \<Rightarrow> CounterCore" where
  "run_turn HOOK_AVAILABLE c =
     (case setting_q c of
        [] \<Rightarrow> c
      | new_settings # rest \<Rightarrow> replace_settings HOOK_AVAILABLE new_settings (c\<lparr>setting_q := rest\<rparr>))"

definition update_settings :: "Settings \<Rightarrow> CounterCore \<Rightarrow> CounterCore" where
  "update_settings new_settings c = c\<lparr>setting_q := setting_q c @ [new_settings]\<rparr>"

definition set_count :: "int \<Rightarrow> CounterCore \<Rightarrow> CounterCore" where
  "set_count new_count c =
     (let c1 = c\<lparr>count := new_count\<rparr>;
          c2 = update_q_put (Count_msg (CounterCore.count c1)) c1
      in c2\<lparr>sequence_presses := 0, burst_count_tracker := 0\<rparr>)"

definition toggle_pause :: "CounterCore \<Rightarrow> CounterCore" where
  "toggle_pause c =
     (let c1 = c\<lparr>settings := (settings c)\<lparr>is_paused := \<not> is_paused (settings c)\<rparr>\<rparr>
      in update_q_put (Paused_msg (is_paused (settings c1))) c1)"

text \<open>The control operations bound to the hotkeys \<open>=\<close>, \<open>-\<close> and \<open>0\<close>.\<close>

definition increment :: "CounterCore \<Rightarrow> CounterCore" where
  "increment c = update_count 1 c"

definition decrement :: "CounterCore \<Rightarrow> CounterCore" where
  "decrement c = update_count (- 1) c"

definition reset_hotkey :: "CounterCore \<Rightarrow> CounterCore" where
  "reset_hotkey c = set_count 0 c"

section \<open>Settings ingestion\<close>

text \<open>
  \<open>ControlPanel.apply_inputs\<close>, as far as the tracking attributes go: the values of the
  panel's Tk variables are written into the settings object, which is then handed to
  \<open>update_settings\<close>.
\<close>

record panel_vars =
  rapid_mode_var :: bool
  amount_var :: int
  burst_idle_var :: int

definition apply_inputs :: "panel_vars \<Rightarrow> Settings \<Rightarrow> Settings" where
  "apply_inputs v s =
     s\<lparr>is_rapid_mode := rapid_mode_var v,
       amount := max 1 (amount_var v),
       burst_idle_ms := max 0 (burst_idle_var v)\<rparr>"

text \<open>
  \<open>load_or_default\<close>. The configuration file is absent, or unreadable (not JSON: the
  \<open>except\<close> branch), or holds a JSON object. Of the object only the keys that name a
  modelled attribute matter (\<open>hasattr\<close> filters the others), together with the legacy key
  \<open>group_n\<close>; each present key carries a value of its attribute's declared type.
\<close>

record json_object =
  j_input_type :: "input_type option"
  j_input_code :: "int option"
  j_is_rapid_mode :: "bool option"
  j_amount :: "int option"
  j_group_n :: "int option"
  j_burst_idle_ms :: "int option"
  j_is_paused :: "bool option"
  j_count :: "int option"

datatype config_file = No_file | Unreadable | Json json_object

definition empty_object :: json_object where
  "empty_object =
     \<lparr> j_input_type = None, j_input_code = None, j_is_rapid_mode = None, j_amount = None,
       j_group_n = None, j_burst_idle_ms = None, j_is_paused = None, j_count = None \<rparr>"

text \<open>\<open>data['amount'] = data.pop('group_n')\<close> when the legacy key is present.\<close>

definition rename_group_n :: "json_object \<Rightarrow> json_object" where
  "rename_group_n data =
     (case j_group_n data of
        Some v \<Rightarrow> data\<lparr>j_amount := Some v, j_group_n := None\<rparr>
      | None \<Rightarrow> data)"

text \<open>The \<open>setattr\<close> loop: each present key overwrites its attribute.\<close>

definition setattr_all :: "json_object \<Rightarrow> Settings \<Rightarrow> Settings" where
  "setattr_all data s =
     s\<lparr>input_type := (case j_input_type data of Some v \<Rightarrow> v | None \<Rightarrow> input_type s),
       input_code := (case j_input_code data of Some v \<Rightarrow> v | None \<Rightarrow> input_code s),
       is_rapid_mode := (case j_is_rapid_mode data of Some v \<Rightarrow> v | None \<Rightarrow> is_rapid_mode s),
       amount := (case j_amount data of Some v \<Rightarrow> v | None \<Rightarrow> amount s),
       burst_idle_ms := (case j_burst_idle_ms data of Some v \<Rightarrow> v | None \<Rightarrow> burst_idle_ms s),
       is_paused := (case j_is_paused data of Some v \<Rightarrow> v | None \<Rightarrow> is_paused s),
       Settings.count := (case j_count data of Some v \<Rightarrow> v | None \<Rightarrow> Settings.count s)\<rparr>"

definition load_or_default :: "config_file \<Rightarrow> Settings" where
  "load_or_default f =
     (case f of
        No_file \<Rightarrow> default_settings
      | Unreadable \<Rightarrow> default_settings
      | Json data \<Rightarrow>
          (let s = setattr_all (rename_group_n data) default_settings
           in s\<lparr>amount := max 1 (amount s)\<rparr>))"

section \<open>Modes and event streams\<close>

text \<open>
  The modes of the module docstring: with \<open>is_rapid_mode\<close> off, \<open>Idle=0\<close> is Multi-Click,
  \<open>Idle>0, Amount=1\<close> is Burst and \<open>Idle>0, Amount>1\<close> is Multi-Burst.
\<close>

definition MultiClick :: "Settings \<Rightarrow> bool" where
  "MultiClick s = (\<not> is_rapid_mode s \<and> burst_idle_ms s = 0)"

definition Burst :: "Settings \<Rightarrow> bool" where
  "Burst s = (\<not> is_rapid_mode s \<and> burst_idle_ms s > 0 \<and> amount s = 1)"

definition MultiBurst :: "Settings \<Rightarrow> bool" where
  "MultiBurst s = (\<not> is_rapid_mode s \<and> burst_idle_ms s > 0 \<and> amount s > 1)"

text \<open>
  A run of presses in which each press comes at most \<open>T\<close> ms after the one before it, so
  that no idle gap separates them.
\<close>

fun within_idle :: "int \<Rightarrow> real list \<Rightarrow> bool" where
  "within_idle T [] = True"
| "within_idle T [t] = True"
| "within_idle T (t # u # ts) = (u - t \<le> real_of_int T \<and> within_idle T (u # ts))"

text \<open>
  Settings for the examples: the defaults with the three tracking attributes chosen, and a
  freshly constructed core running on them.
\<close>

definition tracking :: "bool \<Rightarrow> int \<Rightarrow> int \<Rightarrow> Settings" where
  "tracking rapid n idle =
     default_settings\<lparr>is_rapid_mode := rapid, amount := n, burst_idle_ms := idle\<rparr>"

definition fresh_core :: "bool \<Rightarrow> int \<Rightarrow> int \<Rightarrow> CounterCore" where
  "fresh_core rapid n idle = init_core True (tracking rapid n idle)"

text \<open>The messages tagged \<open>"sequence_presses"\<close>.\<close>

fun is_sequence_presses :: "notification \<Rightarrow> bool" where
  "is_sequence_presses (Sequence_presses_msg n) = True"
| "is_sequence_presses m = False"

text \<open>A freshly constructed core, in Rapid mode, tracking the mouse input \<open>code\<close>.\<close>

definition fresh_mouse_core :: "int \<Rightarrow> CounterCore" where
  "fresh_mouse_core code =
     init_core True (default_settings\<lparr>input_type := Mouse, input_code := code\<rparr>)"

text \<open>The same core with the pause flag of its settings set to \<open>b\<close>.\<close>

definition with_paused :: "bool \<Rightarrow> CounterCore \<Rightarrow> CounterCore" where
  "with_paused b c = c\<lparr>settings := (settings c)\<lparr>is_paused := b\<rparr>\<rparr>"

text \<open>
  The classification state: everything \<open>_handle_input\<close> reads or writes, apart from the
  pause flag, the count and the outgoing queue.
\<close>

definition bookkeeping :: "CounterCore \<Rightarrow> bool \<times> int \<times> int \<times> int \<times> int \<times> real" where
  "bookkeeping c =
     (is_rapid_mode (settings c), amount (settings c), burst_idle_ms (settings c),
      sequence_presses c, burst_count_tracker c, last_press_time c)"

section \<open>Properties of a single press and of runs of presses\<close>

lemmas step_defs = handle_input_def apply_count_logic_def prelude_def increment_sequence_def
  sequence_reset_def update_count_def update_q_put_def Let_def

lemmas example_defs = fresh_core_def tracking_def default_settings_def init_core_def
  setup_hooks_def teardown_hooks_def handle_inputs.simps(2)

lemma handle_input_frame:
  "settings (fst (handle_input t c)) = settings c"
  "last_scroll_time (fst (handle_input t c)) = last_scroll_time c"
  "last_press_time (fst (handle_input t c)) = t"
  by (simp_all add: step_defs)

lemma handle_inputs_Cons_ok:
  "snd (handle_input t c) = None \<Longrightarrow> handle_inputs (t # ts) c = handle_inputs ts (fst (handle_input t c))"
  by (cases "handle_input t c") simp

lemma handle_inputs_Cons_error:
  "snd (handle_input t c) = Some e \<Longrightarrow> handle_inputs (t # ts) c = handle_input t c"
  by (cases "handle_input t c") simp

declare handle_inputs.simps(2) [simp del]

lemma handle_inputs_append:
  "snd (handle_inputs xs c) = None \<Longrightarrow> handle_inputs (xs @ ys) c = handle_inputs ys (fst (handle_inputs xs c))"
proof (induction xs arbitrary: c)
  case Nil
  then show ?case by simp
next
  case (Cons t xs)
  obtain c1 e where h: "handle_input t c = (c1, e)" by (cases "handle_input t c")
  show ?case
  proof (cases e)
    case None
    with h Cons show ?thesis by (simp add: handle_inputs.simps(2))
  next
    case (Some a)
    with h Cons.prems show ?thesis by (simp add: handle_inputs.simps(2))
  qed
qed

lemma handle_inputs_settings: "settings (fst (handle_inputs ts c)) = settings c"
proof (induction ts arbitrary: c)
  case Nil
  show ?case by simp
next
  case (Cons t ts)
  obtain c1 e where h: "handle_input t c = (c1, e)" by (cases "handle_input t c")
  have s: "settings c1 = settings c" using handle_input_frame(1)[of t c] h by simp
  show ?case
  proof (cases e)
    case None
    with h Cons.IH[of c1] s show ?thesis by (simp add: handle_inputs.simps(2))
  next
    case (Some a)
    with h s show ?thesis by (simp add: handle_inputs.simps(2))
  qed
qed

text \<open>A press that continues the running sequence.\<close>

lemma cont_step:
  assumes "\<not> is_rapid_mode (settings c)" "burst_idle_ms (settings c) > 0" "amount (settings c) \<ge> 1"
    and "sequence_presses c \<ge> 1" "t - last_press_time c \<le> real_of_int (burst_idle_ms (settings c))"
  shows "snd (handle_input t c) = None"
    and "CounterCore.count (fst (handle_input t c)) = CounterCore.count c"
    and "sequence_presses (fst (handle_input t c)) = sequence_presses c + 1"
    and "burst_count_tracker (fst (handle_input t c)) = burst_count_tracker c"
  using assms by (simp_all add: step_defs)

lemma cont_run:
  assumes "\<not> is_rapid_mode (settings c)" "burst_idle_ms (settings c) > 0" "amount (settings c) \<ge> 1"
    and "sequence_presses c \<ge> 1" "within_idle (burst_idle_ms (settings c)) (last_press_time c # ts)"
  shows "snd (handle_inputs ts c) = None
       \<and> CounterCore.count (fst (handle_inputs ts c)) = CounterCore.count c
       \<and> sequence_presses (fst (handle_inputs ts c)) = sequence_presses c + int (length ts)
       \<and> burst_count_tracker (fst (handle_inputs ts c)) = burst_count_tracker c
       \<and> last_press_time (fst (handle_inputs ts c)) = last (last_press_time c # ts)"
  using assms
proof (induction ts arbitrary: c)
  case Nil
  then show ?case by simp
next
  case (Cons t ts)
  let ?c1 = "fst (handle_input t c)"
  from Cons.prems have gap: "t - last_press_time c \<le> real_of_int (burst_idle_ms (settings c))"
    and rest: "within_idle (burst_idle_ms (settings c)) (t # ts)" by simp_all
  note st = cont_step[OF Cons.prems(1-4) gap]
  have fr: "settings ?c1 = settings c" "last_press_time ?c1 = t" by (rule handle_input_frame)+
  have ih: "snd (handle_inputs ts ?c1) = None
       \<and> CounterCore.count (fst (handle_inputs ts ?c1)) = CounterCore.count ?c1
       \<and> sequence_presses (fst (handle_inputs ts ?c1)) = sequence_presses ?c1 + int (length ts)
       \<and> burst_count_tracker (fst (handle_inputs ts ?c1)) = burst_count_tracker ?c1
       \<and> last_press_time (fst (handle_inputs ts ?c1)) = last (last_press_time ?c1 # ts)"
    using Cons.prems(1-4) rest st(3) by (intro Cons.IH) (simp_all add: fr)
  have unf: "handle_inputs (t # ts) c = handle_inputs ts ?c1"
    using st(1) by (rule handle_inputs_Cons_ok)
  show ?case unfolding unf using ih st(2-4) fr(2) by simp
qed

text \<open>The first press after the sequence counter was cleared, and the first press after an idle gap.\<close>

lemma first_step:
  assumes "\<not> is_rapid_mode (settings c)" "burst_idle_ms (settings c) > 0" "amount (settings c) \<ge> 1"
    and "\<not> is_paused (settings c)" "sequence_presses c = 0"
  shows "snd (handle_input t c) = None"
    and "sequence_presses (fst (handle_input t c)) = 1"
    and "burst_count_tracker (fst (handle_input t c)) =
           (if amount (settings c) = 1 then burst_count_tracker c
            else if burst_count_tracker c \<ge> amount (settings c) then 0 else burst_count_tracker c)"
    and "CounterCore.count (fst (handle_input t c)) =
           (if amount (settings c) = 1 \<or> burst_count_tracker c \<ge> amount (settings c)
            then CounterCore.count c + 1 else CounterCore.count c)"
  using assms by (simp_all add: step_defs)

lemma open_step:
  assumes "\<not> is_rapid_mode (settings c)" "burst_idle_ms (settings c) > 0" "amount (settings c) \<ge> 1"
    and "\<not> is_paused (settings c)" "sequence_presses c \<ge> 1" "last_press_time c \<noteq> 0"
    and "t - last_press_time c > real_of_int (burst_idle_ms (settings c))"
  shows "snd (handle_input t c) = None"
    and "sequence_presses (fst (handle_input t c)) = 1"
    and "burst_count_tracker (fst (handle_input t c)) =
           (if amount (settings c) = 1 then burst_count_tracker c + 1
            else if burst_count_tracker c + 1 \<ge> amount (settings c) then 0
            else burst_count_tracker c + 1)"
    and "CounterCore.count (fst (handle_input t c)) =
           (if amount (settings c) = 1 \<or> burst_count_tracker c + 1 \<ge> amount (settings c)
            then CounterCore.count c + 1 else CounterCore.count c)"
  using assms by (simp_all add: step_defs)

text \<open>Once its first press has opened a sequence, the rest of a run only lengthens it.\<close>

lemma run_after_first:
  assumes "\<not> is_rapid_mode (settings c)" "burst_idle_ms (settings c) > 0" "amount (settings c) \<ge> 1"
    and "snd (handle_input t c) = None" "sequence_presses (fst (handle_input t c)) = 1"
    and "within_idle (burst_idle_ms (settings c)) (t # ts)"
  shows "snd (handle_inputs (t # ts) c) = None
       \<and> CounterCore.count (fst (handle_inputs (t # ts) c)) = CounterCore.count (fst (handle_input t c))
       \<and> sequence_presses (fst (handle_inputs (t # ts) c)) = 1 + int (length ts)
       \<and> burst_count_tracker (fst (handle_inputs (t # ts) c)) = burst_count_tracker (fst (handle_input t c))
       \<and> last_press_time (fst (handle_inputs (t # ts) c)) = last (t # ts)"
proof -
  let ?c1 = "fst (handle_input t c)"
  have fr: "settings ?c1 = settings c" "last_press_time ?c1 = t" by (rule handle_input_frame)+
  have unf: "handle_inputs (t # ts) c = handle_inputs ts ?c1"
    using assms(4) by (rule handle_inputs_Cons_ok)
  have "snd (handle_inputs ts ?c1) = None
       \<and> CounterCore.count (fst (handle_inputs ts ?c1)) = CounterCore.count ?c1
       \<and> sequence_presses (fst (handle_inputs ts ?c1)) = sequence_presses ?c1 + int (length ts)
       \<and> burst_count_tracker (fst (handle_inputs ts ?c1)) = burst_count_tracker ?c1
       \<and> last_press_time (fst (handle_inputs ts ?c1)) = last (last_press_time ?c1 # ts)"
    using assms by (intro cont_run) (simp_all add: fr)
  then show ?thesis unfolding unf using assms(5) fr(2) by simp
qed

text \<open>A whole run of presses, started on a cleared sequence counter or after an idle gap.\<close>

lemma first_run:
  assumes "\<not> is_rapid_mode (settings c)" "burst_idle_ms (settings c) > 0" "amount (settings c) \<ge> 1"
    and "\<not> is_paused (settings c)" "sequence_presses c = 0"
    and "within_idle (burst_idle_ms (settings c)) (t # ts)"
  shows "snd (handle_inputs (t # ts) c) = None
       \<and> CounterCore.count (fst (handle_inputs (t # ts) c)) =
           (if amount (settings c) = 1 \<or> burst_count_tracker c \<ge> amount (settings c)
            then CounterCore.count c + 1 else CounterCore.count c)
       \<and> sequence_presses (fst (handle_inputs (t # ts) c)) = 1 + int (length ts)
       \<and> burst_count_tracker (fst (handle_inputs (t # ts) c)) =
           (if amount (settings c) = 1 then burst_count_tracker c
            else if burst_count_tracker c \<ge> amount (settings c) then 0 else burst_count_tracker c)
       \<and> last_press_time (fst (handle_inputs (t # ts) c)) = last (t # ts)"
proof -
  note st = first_step[OF assms(1-5), of t]
  from run_after_first[OF assms(1-3) st(1) st(2) assms(6)] show ?thesis
    unfolding st(3) st(4) .
qed

lemma next_run:
  assumes "\<not> is_rapid_mode (settings c)" "burst_idle_ms (settings c) > 0" "amount (settings c) \<ge> 1"
    and "\<not> is_paused (settings c)" "sequence_presses c \<ge> 1" "last_press_time c \<noteq> 0"
    and "t - last_press_time c > real_of_int (burst_idle_ms (settings c))"
    and "within_idle (burst_idle_ms (settings c)) (t # ts)"
  shows "snd (handle_inputs (t # ts) c) = None
       \<and> CounterCore.count (fst (handle_inputs (t # ts) c)) =
           (if amount (settings c) = 1 \<or> burst_count_tracker c + 1 \<ge> amount (settings c)
            then CounterCore.count c + 1 else CounterCore.count c)
       \<and> sequence_presses (fst (handle_inputs (t # ts) c)) = 1 + int (length ts)
       \<and> burst_count_tracker (fst (handle_inputs (t # ts) c)) =
           (if amount (settings c) = 1 then burst_count_tracker c + 1
            else if burst_count_tracker c + 1 \<ge> amount (settings c) then 0
            else burst_count_tracker c + 1)
       \<and> last_press_time (fst (handle_inputs (t # ts) c)) = last (t # ts)"
proof -
  note st = open_step[OF assms(1-7)]
  from run_after_first[OF assms(1-3) st(1) st(2) assms(8)] show ?thesis
    unfolding st(3) st(4) .
qed

lemma multi_burst_step:
  assumes "MultiBurst (settings c)" "\<not> is_paused (settings c)"
  shows "snd (handle_input t c) = None \<and>
     (if sequence_presses (prelude t c) = 1 \<and> burst_count_tracker (prelude t c) \<ge> amount (settings c)
      then CounterCore.count (fst (handle_input t c)) = CounterCore.count c + 1
         \<and> burst_count_tracker (fst (handle_input t c)) = 0
      else CounterCore.count (fst (handle_input t c)) = CounterCore.count c
         \<and> burst_count_tracker (fst (handle_input t c)) = burst_count_tracker (prelude t c))"
  using assms by (simp add: MultiBurst_def step_defs)

lemma handle_input_no_error:
  "is_rapid_mode (settings c) \<or> burst_idle_ms (settings c) \<noteq> 0 \<or> amount (settings c) \<noteq> 0
   \<Longrightarrow> snd (handle_input t c) = None"
  by (auto simp add: step_defs)

lemma handle_inputs_no_error:
  "is_rapid_mode (settings c) \<or> burst_idle_ms (settings c) \<noteq> 0 \<or> amount (settings c) \<noteq> 0
   \<Longrightarrow> snd (handle_inputs ts c) = None"
proof (induction ts arbitrary: c)
  case Nil
  show ?case by simp
next
  case (Cons t ts)
  have ok: "snd (handle_input t c) = None" using Cons.prems by (rule handle_input_no_error)
  have "snd (handle_inputs ts (fst (handle_input t c))) = None"
    using Cons.prems by (intro Cons.IH) (simp add: handle_input_frame)
  then show ?case unfolding handle_inputs_Cons_ok[OF ok] .
qed

lemma fresh_core_fields:
  "settings (fresh_core r n i) = tracking r n i"
  "CounterCore.count (fresh_core r n i) = 0"
  "sequence_presses (fresh_core r n i) = 0"
  "burst_count_tracker (fresh_core r n i) = 0"
  "last_press_time (fresh_core r n i) = 0"
  "last_scroll_time (fresh_core r n i) = 0"
  by (simp_all add: example_defs update_q_put_def)

text \<open>What settings replacement and \<open>set_count\<close> leave behind.\<close>

lemma setup_hooks_frame:
  "settings (setup_hooks H c) = settings c"
  "CounterCore.count (setup_hooks H c) = CounterCore.count c"
  "sequence_presses (setup_hooks H c) = sequence_presses c"
  "burst_count_tracker (setup_hooks H c) = burst_count_tracker c"
  "last_press_time (setup_hooks H c) = last_press_time c"
  "last_scroll_time (setup_hooks H c) = last_scroll_time c"
  by (simp_all add: setup_hooks_def teardown_hooks_def update_q_put_def Let_def split: input_type.split)

lemma replace_settings_fields:
  "settings (replace_settings H ns c) = ns"
  "CounterCore.count (replace_settings H ns c) = Settings.count ns"
  "sequence_presses (replace_settings H ns c) = 0"
  "burst_count_tracker (replace_settings H ns c) = 0"
  "last_press_time (replace_settings H ns c) = last_press_time c"
  "last_scroll_time (replace_settings H ns c) = last_scroll_time c"
  by (simp_all add: replace_settings_def update_q_put_def Let_def setup_hooks_frame)

lemma set_count_fields:
  "settings (set_count v c) = settings c"
  "CounterCore.count (set_count v c) = v"
  "sequence_presses (set_count v c) = 0"
  "burst_count_tracker (set_count v c) = 0"
  "last_press_time (set_count v c) = last_press_time c"
  "last_scroll_time (set_count v c) = last_scroll_time c"
  by (simp_all add: set_count_def update_q_put_def Let_def)

section \<open>Multi-Burst mode\<close>

text \<open>
  C1, with the idle gap strict. In Multi-Burst mode (\<open>burst_idle_ms > 0\<close>, \<open>amount > 1\<close>)
  and not paused, after any stream of presses the next press advances the count by exactly
  one precisely when, once steps 2a and 2b have run, \<open>sequence_presses = 1\<close> and
  \<open>burst_count_tracker \<ge> amount\<close>; the tracker is then cleared, and otherwise the count
  stays. In particular, with \<open>amount = 3\<close> and the counters cleared, three runs of presses,
  each followed by an idle gap of more than \<open>burst_idle_ms\<close>, do not advance the count, the
  first press of the fourth run advances it once and clears the tracker, and the rest of the
  fourth run leaves it there. A gap of exactly \<open>burst_idle_ms\<close> closes nothing, since
  step 2a compares with \<open>>\<close>. The last clock reading of each closed run is not \<open>0.0\<close>,
  the value that stands for "no event yet".
\<close>

theorem multi_burst_advance:
  assumes mb: "MultiBurst (settings c)" and np: "\<not> is_paused (settings c)"
  shows "(\<forall>xs t.
            (let c1 = fst (handle_inputs xs c); p = prelude t c1; c2 = fst (handle_input t c1)
             in snd (handle_inputs (xs @ [t]) c) = None \<and>
                (if sequence_presses p = 1 \<and> burst_count_tracker p \<ge> amount (settings c)
                 then CounterCore.count c2 = CounterCore.count c1 + 1 \<and> burst_count_tracker c2 = 0
                 else CounterCore.count c2 = CounterCore.count c1
                    \<and> burst_count_tracker c2 = burst_count_tracker p)))
       \<and> (amount (settings c) = 3 \<and> sequence_presses c = 0 \<and> burst_count_tracker c = 0
            \<and> within_idle (burst_idle_ms (settings c)) (t1 # r1)
            \<and> within_idle (burst_idle_ms (settings c)) (t2 # r2)
            \<and> within_idle (burst_idle_ms (settings c)) (t3 # r3)
            \<and> within_idle (burst_idle_ms (settings c)) (t4 # r4)
            \<and> last (t1 # r1) \<noteq> 0 \<and> last (t2 # r2) \<noteq> 0 \<and> last (t3 # r3) \<noteq> 0
            \<and> t2 - last (t1 # r1) > real_of_int (burst_idle_ms (settings c))
            \<and> t3 - last (t2 # r2) > real_of_int (burst_idle_ms (settings c))
            \<and> t4 - last (t3 # r3) > real_of_int (burst_idle_ms (settings c))
          \<longrightarrow>
            CounterCore.count (fst (handle_inputs ((t1 # r1) @ (t2 # r2) @ (t3 # r3)) c))
              = CounterCore.count c
          \<and> CounterCore.count (fst (handle_inputs ((t1 # r1) @ (t2 # r2) @ (t3 # r3) @ [t4]) c))
              = CounterCore.count c + 1
          \<and> burst_count_tracker (fst (handle_inputs ((t1 # r1) @ (t2 # r2) @ (t3 # r3) @ [t4]) c))
              = 0
          \<and> CounterCore.count (fst (handle_inputs ((t1 # r1) @ (t2 # r2) @ (t3 # r3) @ (t4 # r4)) c))
              = CounterCore.count c + 1
          \<and> snd (handle_inputs ((t1 # r1) @ (t2 # r2) @ (t3 # r3) @ (t4 # r4)) c) = None)"
    (is "?stream \<and> (?hyp \<longrightarrow> ?scen)")
proof (rule conjI)
  from mb have nr: "\<not> is_rapid_mode (settings c)" and pos: "burst_idle_ms (settings c) > 0"
    and am: "amount (settings c) > 1" by (simp_all add: MultiBurst_def)
  have ne: "\<And>ts. snd (handle_inputs ts c) = None"
    using pos by (intro handle_inputs_no_error) simp
  show ?stream
  proof (intro allI)
    fix xs t
    let ?c1 = "fst (handle_inputs xs c)"
    have s1: "settings ?c1 = settings c" by (rule handle_inputs_settings)
    have "MultiBurst (settings ?c1)" "\<not> is_paused (settings ?c1)" using mb np by (simp_all add: s1)
    from multi_burst_step[OF this, of t] ne[of "xs @ [t]"]
    show "let c1 = fst (handle_inputs xs c); p = prelude t c1; c2 = fst (handle_input t c1)
             in snd (handle_inputs (xs @ [t]) c) = None \<and>
                (if sequence_presses p = 1 \<and> burst_count_tracker p \<ge> amount (settings c)
                 then CounterCore.count c2 = CounterCore.count c1 + 1 \<and> burst_count_tracker c2 = 0
                 else CounterCore.count c2 = CounterCore.count c1
                    \<and> burst_count_tracker c2 = burst_count_tracker p)"
      by (simp add: s1 Let_def)
  qed
next
  show "?hyp \<longrightarrow> ?scen"
  proof (rule impI)
  assume h: ?hyp
  from mb have nr: "\<not> is_rapid_mode (settings c)" and pos: "burst_idle_ms (settings c) > 0"
    and am: "amount (settings c) > 1" by (simp_all add: MultiBurst_def)
  have ne: "\<And>ts. snd (handle_inputs ts c) = None"
    using pos by (intro handle_inputs_no_error) simp
  let ?T = "burst_idle_ms (settings c)"
  let ?b1 = "t1 # r1" let ?b2 = "t2 # r2" let ?b3 = "t3 # r3" let ?b4 = "t4 # r4"
  define c1 where "c1 = fst (handle_inputs ?b1 c)"
  define c2 where "c2 = fst (handle_inputs ?b2 c1)"
  define c3 where "c3 = fst (handle_inputs ?b3 c2)"
  have s1: "settings c1 = settings c" unfolding c1_def by (rule handle_inputs_settings)
  have s2: "settings c2 = settings c" unfolding c2_def using s1 by (simp add: handle_inputs_settings)
  have s3: "settings c3 = settings c" unfolding c3_def using s2 by (simp add: handle_inputs_settings)
  have r1: "CounterCore.count c1 = CounterCore.count c \<and> sequence_presses c1 \<ge> 1
          \<and> burst_count_tracker c1 = 0 \<and> last_press_time c1 = last ?b1"
    using first_run[of c t1 r1] nr pos am np h unfolding c1_def by simp
  have r2: "CounterCore.count c2 = CounterCore.count c \<and> sequence_presses c2 \<ge> 1
          \<and> burst_count_tracker c2 = 1 \<and> last_press_time c2 = last ?b2"
    using next_run[of c1 t2 r2] nr pos am np h r1 unfolding c2_def s1 by simp
  have r3: "CounterCore.count c3 = CounterCore.count c \<and> sequence_presses c3 \<ge> 1
          \<and> burst_count_tracker c3 = 2 \<and> last_press_time c3 = last ?b3"
    using next_run[of c2 t3 r3] nr pos am np h r2 unfolding c3_def s2 by simp
  have a12: "handle_inputs (?b1 @ ys) c = handle_inputs ys c1" for ys
    unfolding c1_def using ne by (rule handle_inputs_append)
  have ne1: "snd (handle_inputs ts c1) = None" for ts
    using pos s1 by (intro handle_inputs_no_error) simp
  have ne2: "snd (handle_inputs ts c2) = None" for ts
    using pos s2 by (intro handle_inputs_no_error) simp
  have ne3: "snd (handle_inputs ts c3) = None" for ts
    using pos s3 by (intro handle_inputs_no_error) simp
  have a23: "handle_inputs (?b2 @ ys) c1 = handle_inputs ys c2" for ys
    unfolding c2_def using ne1 by (rule handle_inputs_append)
  have a34: "handle_inputs (?b3 @ ys) c2 = handle_inputs ys c3" for ys
    unfolding c3_def using ne2 by (rule handle_inputs_append)
  have all: "handle_inputs (?b1 @ ?b2 @ ?b3 @ ys) c = handle_inputs ys c3" for ys
    by (simp only: a12 a23 a34)
  have three: "handle_inputs (?b1 @ ?b2 @ ?b3) c = (c3, None)"
    using all[of "[]"] by simp
  have o4: "CounterCore.count (fst (handle_input t4 c3)) = CounterCore.count c + 1
          \<and> burst_count_tracker (fst (handle_input t4 c3)) = 0"
    using open_step(3,4)[of c3 t4] nr pos am np h r3 unfolding s3 by simp
  have ok4: "snd (handle_input t4 c3) = None"
    using pos s3 by (intro handle_input_no_error) simp
  have one4: "handle_inputs [t4] c3 = (fst (handle_input t4 c3), None)"
    using ok4 by (simp add: handle_inputs_Cons_ok)
  have run4: "CounterCore.count (fst (handle_inputs ?b4 c3)) = CounterCore.count c + 1"
    using next_run[of c3 t4 r4] nr pos am np h r3 unfolding s3 by simp
  have split4: "handle_inputs ?b4 c3 = handle_inputs r4 (fst (handle_input t4 c3))"
    using ok4 by (rule handle_inputs_Cons_ok)
  show ?scen
    unfolding all three one4 using r3 o4 run4 ne3[of "t4 # r4"] by simp
  qed
qed

theorem multi_burst_advance_witness:
  "MultiBurst (settings (fresh_core False 3 500))
   \<and> \<not> is_paused (settings (fresh_core False 3 500))
   \<and> amount (settings (fresh_core False 3 500)) = 3
   \<and> sequence_presses (fresh_core False 3 500) = 0
   \<and> burst_count_tracker (fresh_core False 3 500) = 0
   \<and> within_idle 500 [1000, 1100] \<and> within_idle 500 [1700] \<and> within_idle 500 [2300, 2400, 2500]
   \<and> within_idle 500 [3100, 3200]
   \<and> (1700::real) - 1100 > 500 \<and> (2300::real) - 1700 > 500 \<and> (3100::real) - 2500 > 500
   \<and> CounterCore.count (fst (handle_inputs [1000, 1100, 1700, 2300, 2400, 2500] (fresh_core False 3 500))) = 0
   \<and> CounterCore.count (fst (handle_inputs [1000, 1100, 1700, 2300, 2400, 2500, 3100] (fresh_core False 3 500))) = 1
   \<and> burst_count_tracker (fst (handle_inputs [1000, 1100, 1700, 2300, 2400, 2500, 3100] (fresh_core False 3 500))) = 0
   \<and> CounterCore.count (fst (handle_inputs [1000, 1100, 1700, 2300, 2400, 2500, 3100, 3200] (fresh_core False 3 500))) = 1"
proof -
  have m: "MultiBurst (settings (fresh_core False 3 500))"
    by (simp add: fresh_core_fields tracking_def MultiBurst_def)
  have p: "\<not> is_paused (settings (fresh_core False 3 500))"
    by (simp add: fresh_core_fields tracking_def default_settings_def)
  have a: "amount (settings (fresh_core False 3 500)) = 3"
    "burst_idle_ms (settings (fresh_core False 3 500)) = 500"
    by (simp_all add: fresh_core_fields tracking_def)
  from multi_burst_advance [OF m p, where ?t1.0 = 1000 and ?r1.0 = "[1100]" and ?t2.0 = 1700
      and ?r2.0 = "[]" and ?t3.0 = 2300 and ?r3.0 = "[2400, 2500]" and ?t4.0 = 3100
      and ?r4.0 = "[3200]"]
  show ?thesis using m p by (simp add: fresh_core_fields tracking_def default_settings_def)
qed

text \<open>
  With gaps of exactly \<open>burst_idle_ms = 500\<close> between four single presses the count does
  not advance at the fourth.
\<close>

theorem multi_burst_gap_counterexample:
  "MultiBurst (settings (fresh_core False 3 500))
   \<and> \<not> is_paused (settings (fresh_core False 3 500))
   \<and> amount (settings (fresh_core False 3 500)) = 3
   \<and> (1500::real) - 1000 \<ge> real_of_int (burst_idle_ms (settings (fresh_core False 3 500)))
   \<and> (2000::real) - 1500 \<ge> real_of_int (burst_idle_ms (settings (fresh_core False 3 500)))
   \<and> (2500::real) - 2000 \<ge> real_of_int (burst_idle_ms (settings (fresh_core False 3 500)))
   \<and> CounterCore.count (fst (handle_inputs [1000, 1500, 2000, 2500] (fresh_core False 3 500)))
        = CounterCore.count (fresh_core False 3 500)
   \<and> CounterCore.count (fst (handle_inputs [1000, 1500, 2000, 2500] (fresh_core False 3 500)))
        \<noteq> CounterCore.count (fresh_core False 3 500) + 1"
  by (simp add: example_defs step_defs MultiBurst_def)

section \<open>Burst mode\<close>

lemma within_idle_take: "within_idle T (t # ts) \<Longrightarrow> within_idle T (t # take n ts)"
proof (induction ts arbitrary: t n)
  case Nil
  show ?case by simp
next
  case (Cons u us)
  show ?case
  proof (cases n)
    case 0
    show ?thesis unfolding 0 by simp
  next
    case (Suc k)
    from Cons.prems have "u - t \<le> real_of_int T" "within_idle T (u # us)" by simp_all
    with Cons.IH[of u k] show ?thesis unfolding Suc by simp
  qed
qed

lemma burst_step:
  assumes "Burst (settings c)" "\<not> is_paused (settings c)"
  shows "snd (handle_input t c) = None
       \<and> sequence_presses (fst (handle_input t c)) = sequence_presses (prelude t c)
       \<and> CounterCore.count (fst (handle_input t c)) =
           CounterCore.count c + (if sequence_presses (fst (handle_input t c)) = 1 then 1 else 0)"
  using assms by (simp add: Burst_def step_defs)

text \<open>
  C2, with the idle gap strict. In Burst mode (\<open>burst_idle_ms = T > 0\<close>, \<open>amount = 1\<close>) and
  not paused, after any stream of presses the next press advances the count by one exactly
  when it leaves \<open>sequence_presses = 1\<close>, that is when it is the first press of a freshly
  opened or reopened sequence. Started on a cleared sequence counter, a run of presses with
  all gaps at most \<open>T\<close> advances the count exactly once, on its first press: every
  non-empty prefix of the run leaves the count one higher. A second run that starts more
  than \<open>T\<close> after the first advances it exactly once more, again on its first press. A gap
  of exactly \<open>T\<close> does not reopen the sequence.
\<close>

theorem burst_advance:
  assumes bm: "Burst (settings c)" and np: "\<not> is_paused (settings c)"
  shows "(\<forall>xs t.
            (let c1 = fst (handle_inputs xs c); c2 = fst (handle_input t c1)
             in snd (handle_inputs (xs @ [t]) c) = None
              \<and> sequence_presses c2 = sequence_presses (prelude t c1)
              \<and> CounterCore.count c2 =
                  CounterCore.count c1 + (if sequence_presses c2 = 1 then 1 else 0)))
       \<and> (sequence_presses c = 0
            \<and> within_idle (burst_idle_ms (settings c)) (t1 # r1)
            \<and> within_idle (burst_idle_ms (settings c)) (t2 # r2)
            \<and> last (t1 # r1) \<noteq> 0
            \<and> t2 - last (t1 # r1) > real_of_int (burst_idle_ms (settings c))
          \<longrightarrow>
            CounterCore.count (fst (handle_inputs (take (Suc n) (t1 # r1)) c))
              = CounterCore.count c + 1
          \<and> CounterCore.count (fst (handle_inputs (t1 # r1) c)) = CounterCore.count c + 1
          \<and> CounterCore.count (fst (handle_inputs ((t1 # r1) @ take (Suc m) (t2 # r2)) c))
              = CounterCore.count c + 2
          \<and> CounterCore.count (fst (handle_inputs ((t1 # r1) @ (t2 # r2)) c))
              = CounterCore.count c + 2
          \<and> snd (handle_inputs ((t1 # r1) @ (t2 # r2)) c) = None)"
    (is "?stream \<and> (?hyp \<longrightarrow> ?scen)")
proof (rule conjI)
  from bm have pos: "burst_idle_ms (settings c) > 0" by (simp add: Burst_def)
  have ne: "\<And>ts. snd (handle_inputs ts c) = None"
    using pos by (intro handle_inputs_no_error) simp
  show ?stream
  proof (intro allI)
    fix xs t
    let ?c1 = "fst (handle_inputs xs c)"
    have s1: "settings ?c1 = settings c" by (rule handle_inputs_settings)
    have "Burst (settings ?c1)" "\<not> is_paused (settings ?c1)" using bm np by (simp_all add: s1)
    from burst_step[OF this, of t] ne[of "xs @ [t]"]
    show "let c1 = fst (handle_inputs xs c); c2 = fst (handle_input t c1)
             in snd (handle_inputs (xs @ [t]) c) = None
              \<and> sequence_presses c2 = sequence_presses (prelude t c1)
              \<and> CounterCore.count c2 =
                  CounterCore.count c1 + (if sequence_presses c2 = 1 then 1 else 0)"
      by (simp add: Let_def)
  qed
next
  show "?hyp \<longrightarrow> ?scen"
  proof (rule impI)
    assume h: ?hyp
    from bm have nr: "\<not> is_rapid_mode (settings c)" and pos: "burst_idle_ms (settings c) > 0"
      and am: "amount (settings c) = 1" by (simp_all add: Burst_def)
    have ne: "\<And>ts. snd (handle_inputs ts c) = None"
      using pos by (intro handle_inputs_no_error) simp
    let ?T = "burst_idle_ms (settings c)"
    define c1 where "c1 = fst (handle_inputs (t1 # r1) c)"
    have s1: "settings c1 = settings c" unfolding c1_def by (rule handle_inputs_settings)
    have ne1: "snd (handle_inputs ts c1) = None" for ts
      using pos s1 by (intro handle_inputs_no_error) simp
    have w1: "within_idle ?T (t1 # take n r1)" using h by (intro within_idle_take) simp
    have w2: "within_idle ?T (t2 # take m r2)" using h by (intro within_idle_take) simp
    have p1: "CounterCore.count (fst (handle_inputs (t1 # take n r1) c)) = CounterCore.count c + 1"
      using first_run[of c t1 "take n r1"] nr pos am np h w1 by simp
    have r1: "CounterCore.count c1 = CounterCore.count c + 1 \<and> sequence_presses c1 \<ge> 1
            \<and> last_press_time c1 = last (t1 # r1)"
      using first_run[of c t1 r1] nr pos am np h unfolding c1_def by simp
    have a12: "handle_inputs ((t1 # r1) @ ys) c = handle_inputs ys c1" for ys
      unfolding c1_def using ne by (rule handle_inputs_append)
    have p2: "CounterCore.count (fst (handle_inputs (t2 # take m r2) c1)) = CounterCore.count c + 2"
      using next_run[of c1 t2 "take m r2"] nr pos am np h w2 r1 unfolding s1 by simp
    have r2: "CounterCore.count (fst (handle_inputs (t2 # r2) c1)) = CounterCore.count c + 2"
      using next_run[of c1 t2 r2] nr pos am np h r1 unfolding s1 by simp
    show ?scen
      unfolding a12 using p1 r1[unfolded c1_def] p2 r2 ne1[of "t2 # r2"] by simp
  qed
qed

theorem burst_advance_witness:
  "Burst (settings (fresh_core False 1 500))
   \<and> \<not> is_paused (settings (fresh_core False 1 500))
   \<and> sequence_presses (fresh_core False 1 500) = 0
   \<and> within_idle 500 [1000, 1100, 1200] \<and> within_idle 500 [1800, 1900]
   \<and> (1800::real) - 1200 > 500
   \<and> CounterCore.count (fst (handle_inputs [1000] (fresh_core False 1 500))) = 1
   \<and> CounterCore.count (fst (handle_inputs [1000, 1100, 1200] (fresh_core False 1 500))) = 1
   \<and> CounterCore.count (fst (handle_inputs [1000, 1100, 1200, 1800] (fresh_core False 1 500))) = 2
   \<and> CounterCore.count (fst (handle_inputs [1000, 1100, 1200, 1800, 1900] (fresh_core False 1 500))) = 2"
proof -
  have m: "Burst (settings (fresh_core False 1 500))"
    by (simp add: fresh_core_fields tracking_def Burst_def)
  have p: "\<not> is_paused (settings (fresh_core False 1 500))"
    by (simp add: fresh_core_fields tracking_def default_settings_def)
  from burst_advance [OF m p, where ?t1.0 = 1000 and ?r1.0 = "[1100, 1200]" and ?t2.0 = 1800
      and ?r2.0 = "[1900]" and ?n = 0 and ?m = 0]
  show ?thesis using m p by (simp add: fresh_core_fields tracking_def default_settings_def)
qed

text \<open>
  Two presses exactly \<open>burst_idle_ms = 500\<close> apart: the second does not advance the count.
\<close>

theorem burst_gap_counterexample:
  "Burst (settings (fresh_core False 1 500))
   \<and> \<not> is_paused (settings (fresh_core False 1 500))
   \<and> (1500::real) - 1000 \<ge> real_of_int (burst_idle_ms (settings (fresh_core False 1 500)))
   \<and> CounterCore.count (fst (handle_inputs [1000] (fresh_core False 1 500))) = 1
   \<and> CounterCore.count (fst (handle_inputs [1000, 1500] (fresh_core False 1 500))) = 1
   \<and> CounterCore.count (fst (handle_inputs [1000, 1500] (fresh_core False 1 500))) \<noteq> 2"
  by (simp add: example_defs step_defs Burst_def)

section \<open>Multi-Click mode\<close>

lemma div_succ:
  fixes N s :: int
  assumes "1 \<le> N"
  shows "(s + 1) div N - s div N = (if (s + 1) mod N = 0 then 1 else 0)"
proof -
  define q where "q = (s + 1) div N"
  define r where "r = (s + 1) mod N"
  have eq: "s + 1 = N * q + r" unfolding q_def r_def by simp
  have r0: "0 \<le> r" and rN: "r < N" using assms unfolding r_def by simp_all
  show ?thesis
  proof (cases "r = 0")
    case True
    have e: "s = N * (q - 1) + (N - 1)" using eq True by (simp add: algebra_simps)
    have "s div N = q - 1"
      by (rule int_div_pos_eq[of s N "q - 1" "N - 1"]) (use e assms in simp_all)
    then show ?thesis using True unfolding q_def r_def by simp
  next
    case False
    have e: "s = N * q + (r - 1)" using eq by simp
    have "s div N = q"
      by (rule int_div_pos_eq[of s N q "r - 1"]) (use e r0 rN False in simp_all)
    then show ?thesis using False unfolding q_def r_def by simp
  qed
qed

lemma multi_click_step:
  assumes "MultiClick (settings c)" "amount (settings c) \<ge> 1" "\<not> is_paused (settings c)"
  shows "snd (handle_input t c) = None
       \<and> sequence_presses (fst (handle_input t c)) = sequence_presses c + 1
       \<and> burst_count_tracker (fst (handle_input t c)) = burst_count_tracker c
       \<and> CounterCore.count (fst (handle_input t c)) =
           CounterCore.count c
             + (if sequence_presses (fst (handle_input t c)) mod amount (settings c) = 0 then 1 else 0)"
  using assms by (simp add: MultiClick_def step_defs)

lemma multi_click_run:
  assumes "MultiClick (settings c)" "amount (settings c) \<ge> 1" "\<not> is_paused (settings c)"
  shows "snd (handle_inputs ts c) = None
       \<and> sequence_presses (fst (handle_inputs ts c)) = sequence_presses c + int (length ts)
       \<and> CounterCore.count (fst (handle_inputs ts c)) =
           CounterCore.count c + (sequence_presses c + int (length ts)) div amount (settings c)
             - sequence_presses c div amount (settings c)"
  using assms
proof (induction ts arbitrary: c)
  case Nil
  show ?case by simp
next
  case (Cons t ts)
  let ?c1 = "fst (handle_input t c)"
  note st = multi_click_step[OF Cons.prems, of t]
  have fr: "settings ?c1 = settings c" by (rule handle_input_frame)
  have unf: "handle_inputs (t # ts) c = handle_inputs ts ?c1"
    using st by (intro handle_inputs_Cons_ok) simp
  have ih: "snd (handle_inputs ts ?c1) = None
       \<and> sequence_presses (fst (handle_inputs ts ?c1)) = sequence_presses ?c1 + int (length ts)
       \<and> CounterCore.count (fst (handle_inputs ts ?c1)) =
           CounterCore.count ?c1 + (sequence_presses ?c1 + int (length ts)) div amount (settings ?c1)
             - sequence_presses ?c1 div amount (settings ?c1)"
    using Cons.prems by (intro Cons.IH) (simp_all add: fr)
  have d: "(sequence_presses c + 1) div amount (settings c) - sequence_presses c div amount (settings c)
           = (if (sequence_presses c + 1) mod amount (settings c) = 0 then 1 else 0)"
    using Cons.prems(2) by (rule div_succ)
  have sq: "sequence_presses ?c1 = sequence_presses c + 1" using st by simp
  have ct: "CounterCore.count ?c1 = CounterCore.count c
             + (if (sequence_presses c + 1) mod amount (settings c) = 0 then 1 else 0)"
    using st by simp
  show ?case unfolding unf using ih d unfolding fr sq ct by (simp add: algebra_simps)
qed

lemma multi_click_from_zero:
  assumes "MultiClick (settings c)" "amount (settings c) \<ge> 1" "\<not> is_paused (settings c)"
    and "sequence_presses c = 0" "length ts = k * nat (amount (settings c))"
  shows "snd (handle_inputs ts c) = None
       \<and> CounterCore.count (fst (handle_inputs ts c)) = CounterCore.count c + int k"
proof -
  have l: "int (length ts) = int k * amount (settings c)" using assms(2,5) by simp
  have "(int k * amount (settings c)) div amount (settings c) = int k" using assms(2) by simp
  with multi_click_run[OF assms(1-3), of ts] assms(4) l show ?thesis by simp
qed

text \<open>
  C3. In Multi-Click mode (\<open>burst_idle_ms = 0\<close>) with \<open>amount = N \<ge> 1\<close> and not paused,
  after any stream of presses the next press advances the count by one exactly when it
  brings \<open>sequence_presses\<close> to a multiple of \<open>N\<close>. Hence after exactly \<open>k * N\<close> presses
  on a cleared sequence counter, in particular after a settings replacement or a
  \<open>set_count\<close>, the count has advanced exactly \<open>k\<close> times, whatever the timestamps.
\<close>

theorem multi_click_advance:
  assumes mc: "MultiClick s" and am: "amount s = N" and n1: "1 \<le> N" and np: "\<not> is_paused s"
  shows "(settings c = s \<longrightarrow>
            (\<forall>xs t.
               (let c1 = fst (handle_inputs xs c); c2 = fst (handle_input t c1)
                in snd (handle_inputs (xs @ [t]) c) = None
                 \<and> sequence_presses c2 = sequence_presses c1 + 1
                 \<and> CounterCore.count c2 =
                     CounterCore.count c1 + (if sequence_presses c2 mod N = 0 then 1 else 0))))
       \<and> (settings c = s \<and> sequence_presses c = 0 \<and> length ts = k * nat N \<longrightarrow>
            snd (handle_inputs ts c) = None
          \<and> CounterCore.count (fst (handle_inputs ts c)) = CounterCore.count c + int k)
       \<and> (length ts = k * nat N \<longrightarrow>
            CounterCore.count (fst (handle_inputs ts (replace_settings H s c'))) = Settings.count s + int k)
       \<and> (settings c = s \<and> length ts = k * nat N \<longrightarrow>
            CounterCore.count (fst (handle_inputs ts (set_count v c))) = v + int k)"
    (is "?stream \<and> ?zero \<and> ?repl \<and> ?setc")
proof (intro conjI)
  show ?stream
  proof (intro impI allI)
    fix xs t
    assume sc: "settings c = s"
    let ?c1 = "fst (handle_inputs xs c)"
    have s1: "settings ?c1 = s" using sc by (simp add: handle_inputs_settings)
    have m: "MultiClick (settings ?c1)" "amount (settings ?c1) \<ge> 1" "\<not> is_paused (settings ?c1)"
      using mc am n1 np by (simp_all add: s1)
    have ne: "snd (handle_inputs (xs @ [t]) c) = None"
      using multi_click_run[of c "xs @ [t]"] mc am n1 np sc by simp
    from multi_click_step[OF m, of t] ne
    show "let c1 = fst (handle_inputs xs c); c2 = fst (handle_input t c1)
                in snd (handle_inputs (xs @ [t]) c) = None
                 \<and> sequence_presses c2 = sequence_presses c1 + 1
                 \<and> CounterCore.count c2 =
                     CounterCore.count c1 + (if sequence_presses c2 mod N = 0 then 1 else 0)"
      using am by (simp add: s1 Let_def)
  qed
next
  show ?zero
    using multi_click_from_zero[of c ts k] mc am n1 np by simp
next
  show ?repl
    using multi_click_from_zero[of "replace_settings H s c'" ts k] mc am n1 np
    by (simp add: replace_settings_fields)
next
  show ?setc
    using multi_click_from_zero[of "set_count v c" ts k] mc am n1 np
    by (simp add: set_count_fields)
qed

theorem multi_click_advance_witness:
  "MultiClick (tracking False 4 0) \<and> amount (tracking False 4 0) = 4 \<and> (1::int) \<le> 4
   \<and> \<not> is_paused (tracking False 4 0)
   \<and> settings (fresh_core False 4 0) = tracking False 4 0
   \<and> sequence_presses (fresh_core False 4 0) = 0
   \<and> length [10, 20, 5000, 5001, 5002, 9000, 9001, 90000 :: real] = 2 * nat 4
   \<and> CounterCore.count (fst (handle_inputs [10, 20, 5000, 5001, 5002, 9000, 9001, 90000]
        (fresh_core False 4 0))) = 2
   \<and> CounterCore.count (fst (handle_inputs [10, 20, 5000, 5001, 5002, 9000, 9001, 90000]
        (replace_settings True (tracking False 4 0) (fresh_core True 1 0)))) = 2
   \<and> CounterCore.count (fst (handle_inputs [10, 20, 5000, 5001, 5002, 9000, 9001, 90000]
        (set_count 7 (fresh_core False 4 0)))) = 9"
proof -
  have m: "MultiClick (tracking False 4 0)" "amount (tracking False 4 0) = 4" "(1::int) \<le> 4"
    "\<not> is_paused (tracking False 4 0)"
    by (simp_all add: tracking_def default_settings_def MultiClick_def)
  from multi_click_advance [OF m, where c = "fresh_core False 4 0"
      and ts = "[10, 20, 5000, 5001, 5002, 9000, 9001, 90000]" and k = 2 and H = True
      and c' = "fresh_core True 1 0" and v = 7]
  show ?thesis using m by (simp add: fresh_core_fields tracking_def default_settings_def)
qed

section \<open>Pausing\<close>

lemma bookkeeping_prelude:
  "bookkeeping c = bookkeeping c' \<Longrightarrow> bookkeeping (prelude t c) = bookkeeping (prelude t c')"
  by (simp add: bookkeeping_def prelude_def increment_sequence_def sequence_reset_def
        update_q_put_def Let_def)

lemma bookkeeping_count_logic:
  assumes "bookkeeping c = bookkeeping c'"
  shows "bookkeeping (fst (apply_count_logic c)) = bookkeeping (fst (apply_count_logic c'))"
    and "snd (apply_count_logic c) = snd (apply_count_logic c')"
  using assms
  by (simp_all add: bookkeeping_def apply_count_logic_def update_count_def update_q_put_def Let_def)

lemma bookkeeping_step:
  assumes "bookkeeping c = bookkeeping c'"
  shows "bookkeeping (fst (handle_input t c)) = bookkeeping (fst (handle_input t c'))"
    and "snd (handle_input t c) = snd (handle_input t c')"
proof -
  have r: "is_rapid_mode (settings c) = is_rapid_mode (settings c')"
    using assms by (simp add: bookkeeping_def)
  note p = bookkeeping_prelude[OF assms, of t]
  note a = bookkeeping_count_logic[OF p]
  show "bookkeeping (fst (handle_input t c)) = bookkeeping (fst (handle_input t c'))"
  proof (cases "is_rapid_mode (settings c)")
    case True
    with r assms show ?thesis
      by (simp add: handle_input_def bookkeeping_def update_count_def update_q_put_def Let_def)
  next
    case False
    with r a(1) show ?thesis by (simp add: handle_input_def)
  qed
  show "snd (handle_input t c) = snd (handle_input t c')"
  proof (cases "is_rapid_mode (settings c)")
    case True
    with r show ?thesis by (simp add: handle_input_def Let_def)
  next
    case False
    with r a(2) show ?thesis by (simp add: handle_input_def)
  qed
qed

lemma bookkeeping_run:
  assumes "bookkeeping c = bookkeeping c'"
  shows "bookkeeping (fst (handle_inputs ts c)) = bookkeeping (fst (handle_inputs ts c'))
       \<and> snd (handle_inputs ts c) = snd (handle_inputs ts c')"
  using assms
proof (induction ts arbitrary: c c')
  case Nil
  then show ?case by simp
next
  case (Cons t ts)
  note st = bookkeeping_step[OF Cons.prems, of t]
  show ?case
  proof (cases "snd (handle_input t c)")
    case None
    then have n': "snd (handle_input t c') = None" using st(2) by simp
    show ?thesis
      unfolding handle_inputs_Cons_ok[OF None] handle_inputs_Cons_ok[OF n']
      using st(1) by (rule Cons.IH)
  next
    case (Some e)
    then have s': "snd (handle_input t c') = Some e" using st(2) by simp
    show ?thesis
      unfolding handle_inputs_Cons_error[OF Some] handle_inputs_Cons_error[OF s']
      using st by simp
  qed
qed

lemma paused_step: "is_paused (settings c) \<Longrightarrow> CounterCore.count (fst (handle_input t c)) = CounterCore.count c"
  by (simp add: step_defs)

lemma paused_run: "is_paused (settings c) \<Longrightarrow> CounterCore.count (fst (handle_inputs ts c)) = CounterCore.count c"
proof (induction ts arbitrary: c)
  case Nil
  show ?case by simp
next
  case (Cons t ts)
  show ?case
  proof (cases "snd (handle_input t c)")
    case None
    have "is_paused (settings (fst (handle_input t c)))" using Cons.prems by (simp add: handle_input_frame)
    from Cons.IH[OF this] paused_step[OF Cons.prems, of t]
    show ?thesis unfolding handle_inputs_Cons_ok[OF None] by simp
  next
    case (Some e)
    show ?thesis unfolding handle_inputs_Cons_error[OF Some] using Cons.prems by (rule paused_step)
  qed
qed

lemma with_paused_fields:
  "is_paused (settings (with_paused b c)) = b"
  "CounterCore.count (with_paused b c) = CounterCore.count c"
  "bookkeeping (with_paused b c) = bookkeeping c"
  by (simp_all add: with_paused_def bookkeeping_def)

lemma toggle_pause_fields:
  "is_paused (settings (toggle_pause c)) = (\<not> is_paused (settings c))"
  "CounterCore.count (toggle_pause c) = CounterCore.count c"
  "bookkeeping (toggle_pause c) = bookkeeping c"
  by (simp_all add: toggle_pause_def bookkeeping_def update_q_put_def Let_def)

text \<open>
  C4. From any state and for any press, \<open>_handle_input\<close> with the pause flag set leaves
  exactly the same \<open>sequence_presses\<close>, \<open>burst_count_tracker\<close> and \<open>last_press_time\<close>
  (and raises in exactly the same cases) as with the flag clear, and leaves the count as
  it was. The same holds along any stream of presses, and a \<open>toggle_pause\<close> that resumes
  afterwards credits nothing: the count is still the one from before the stream.
\<close>

theorem pause_freezes_count_only:
  "snd (handle_input t (with_paused True c)) = snd (handle_input t (with_paused False c))
 \<and> sequence_presses (fst (handle_input t (with_paused True c)))
     = sequence_presses (fst (handle_input t (with_paused False c)))
 \<and> burst_count_tracker (fst (handle_input t (with_paused True c)))
     = burst_count_tracker (fst (handle_input t (with_paused False c)))
 \<and> last_press_time (fst (handle_input t (with_paused True c)))
     = last_press_time (fst (handle_input t (with_paused False c)))
 \<and> CounterCore.count (fst (handle_input t (with_paused True c))) = CounterCore.count c
 \<and> snd (handle_inputs ts (with_paused True c)) = snd (handle_inputs ts (with_paused False c))
 \<and> sequence_presses (fst (handle_inputs ts (with_paused True c)))
     = sequence_presses (fst (handle_inputs ts (with_paused False c)))
 \<and> burst_count_tracker (fst (handle_inputs ts (with_paused True c)))
     = burst_count_tracker (fst (handle_inputs ts (with_paused False c)))
 \<and> last_press_time (fst (handle_inputs ts (with_paused True c)))
     = last_press_time (fst (handle_inputs ts (with_paused False c)))
 \<and> CounterCore.count (fst (handle_inputs ts (with_paused True c))) = CounterCore.count c
 \<and> CounterCore.count (toggle_pause (fst (handle_inputs ts (with_paused True c)))) = CounterCore.count c
 \<and> \<not> is_paused (settings (toggle_pause (fst (handle_inputs ts (with_paused True c)))))"
proof -
  have b: "bookkeeping (with_paused True c) = bookkeeping (with_paused False c)"
    by (simp add: with_paused_fields)
  have p: "is_paused (settings (with_paused True c))" by (simp add: with_paused_fields)
  note one = bookkeeping_step[OF b, of t]
  note many = bookkeeping_run[OF b, of ts]
  have c1: "CounterCore.count (fst (handle_input t (with_paused True c))) = CounterCore.count c"
    using paused_step[OF p, of t] by (simp add: with_paused_fields)
  have cn: "CounterCore.count (fst (handle_inputs ts (with_paused True c))) = CounterCore.count c"
    using paused_run[OF p, of ts] by (simp add: with_paused_fields)
  have sp: "is_paused (settings (fst (handle_inputs ts (with_paused True c))))"
    using p by (simp add: handle_inputs_settings)
  show ?thesis
    using one many c1 cn sp by (simp add: bookkeeping_def toggle_pause_fields)
qed

section \<open>Which operations change the count\<close>

lemma paused_update_count:
  "is_paused (settings c) \<Longrightarrow> update_count d c = c"
  by (simp add: update_count_def)

lemma paused_key_callback:
  "is_paused (settings c) \<Longrightarrow> CounterCore.count (fst (key_callback t ev c)) = CounterCore.count c"
  by (simp add: key_callback_def paused_step)

lemma paused_mouse_callback:
  assumes "is_paused (settings c)"
  shows "CounterCore.count (fst (mouse_callback t t' mev c)) = CounterCore.count c"
proof (cases mev)
  case (ButtonEvent et b)
  then show ?thesis using assms by (simp add: paused_step split: option.split)
next
  case (WheelEvent delta)
  have "CounterCore.count (fst (handle_input t' (c\<lparr>last_scroll_time := t\<rparr>))) = CounterCore.count c"
    using paused_step[of "c\<lparr>last_scroll_time := t\<rparr>" t'] assms by simp
  then show ?thesis using WheelEvent by simp
next
  case MoveEvent
  then show ?thesis by simp
qed

text \<open>
  C5, as the code has it. While the pause flag is set, classifying a press (one or a whole
  stream, through either hook callback) and the control operations \<open>increment\<close> and
  \<open>decrement\<close> leave the count unchanged; \<open>toggle_pause\<close> and queueing new settings never
  change it. \<open>set_count\<close> and the settings replacement of \<open>run\<close> do not consult the flag:
  they overwrite the count with the given value, and with the count of the incoming
  settings, whether paused or not.
\<close>

theorem count_changes_only_unpaused:
  "(is_paused (settings c) \<longrightarrow>
       CounterCore.count (fst (handle_input t c)) = CounterCore.count c
     \<and> CounterCore.count (fst (handle_inputs ts c)) = CounterCore.count c
     \<and> CounterCore.count (fst (key_callback t ev c)) = CounterCore.count c
     \<and> CounterCore.count (fst (mouse_callback t t' mev c)) = CounterCore.count c
     \<and> CounterCore.count (update_count d c) = CounterCore.count c
     \<and> CounterCore.count (increment c) = CounterCore.count c
     \<and> CounterCore.count (decrement c) = CounterCore.count c)
 \<and> CounterCore.count (toggle_pause c) = CounterCore.count c
 \<and> CounterCore.count (update_settings ns c) = CounterCore.count c
 \<and> CounterCore.count (set_count v c) = v
 \<and> CounterCore.count (reset_hotkey c) = 0
 \<and> CounterCore.count (replace_settings H ns c) = Settings.count ns
 \<and> CounterCore.count (run_turn H (c\<lparr>setting_q := ns # q\<rparr>)) = Settings.count ns"
  by (simp add: paused_step paused_run paused_key_callback paused_mouse_callback
        paused_update_count increment_def decrement_def toggle_pause_fields update_settings_def
        set_count_fields reset_hotkey_def replace_settings_fields run_turn_def)

theorem count_changes_only_unpaused_witness:
  "is_paused (settings (with_paused True (fresh_core False 1 0)))
 \<and> CounterCore.count (fst (handle_input 1000 (with_paused True (fresh_core False 1 0)))) = 0
 \<and> CounterCore.count (fst (handle_inputs [1000, 2000] (with_paused True (fresh_core False 1 0)))) = 0
 \<and> CounterCore.count (increment (with_paused True (fresh_core False 1 0))) = 0
 \<and> CounterCore.count (decrement (with_paused True (fresh_core False 1 0))) = 0
 \<and> CounterCore.count (fst (handle_input 1000 (with_paused False (fresh_core False 1 0)))) = 1"
proof -
  have p: "is_paused (settings (with_paused True (fresh_core False 1 0)))"
    by (simp add: with_paused_fields)
  have u: "CounterCore.count (fst (handle_input 1000 (with_paused False (fresh_core False 1 0)))) = 1"
    by (simp add: with_paused_def example_defs step_defs)
  from count_changes_only_unpaused [where c = "with_paused True (fresh_core False 1 0)"
      and t = 1000 and ts = "[1000, 2000]"]
  show ?thesis using p u by (simp add: with_paused_fields fresh_core_fields)
qed

text \<open>
  On a paused core showing 0, \<open>set_count 5\<close> makes the count 5, and replacing the settings
  by paused settings that carry the count 9 makes it 9.
\<close>

theorem set_count_while_paused_counterexample:
  "is_paused (settings (with_paused True (fresh_core True 1 0)))
 \<and> CounterCore.count (with_paused True (fresh_core True 1 0)) = 0
 \<and> CounterCore.count (set_count 5 (with_paused True (fresh_core True 1 0))) = 5
 \<and> is_paused (settings (set_count 5 (with_paused True (fresh_core True 1 0))))
 \<and> is_paused ((tracking True 1 0)\<lparr>is_paused := True, Settings.count := 9\<rparr>)
 \<and> CounterCore.count (replace_settings True ((tracking True 1 0)\<lparr>is_paused := True, Settings.count := 9\<rparr>)
       (with_paused True (fresh_core True 1 0))) = 9"
  by (simp add: with_paused_fields fresh_core_fields set_count_fields replace_settings_fields)

section \<open>Settings replacement and \<open>set_count\<close>\<close>

lemma multi_click_after_reset:
  assumes "MultiClick (settings c)" "amount (settings c) \<ge> 1" "\<not> is_paused (settings c)"
    and "sequence_presses c = 0"
  shows "snd (handle_inputs ts c) = None
       \<and> sequence_presses (fst (handle_inputs ts c)) = int (length ts)
       \<and> CounterCore.count (fst (handle_inputs ts c)) =
           CounterCore.count c + int (length ts) div amount (settings c)"
  using multi_click_run[OF assms(1-3), of ts] assms(4) by simp

text \<open>
  C6. The settings replacement of \<open>run\<close> (with any incoming settings, identical to the old
  ones or not) installs the incoming settings, takes the count from them and clears
  \<open>sequence_presses\<close> and \<open>burst_count_tracker\<close>; \<open>set_count\<close> sets the count and
  clears the same two counters. So a sequence under way is not carried over: in
  Multi-Click mode the presses after a replacement or a \<open>set_count\<close> are counted from
  zero, and the count advances once per \<open>amount\<close> presses made since then, whatever had
  been pressed before.
\<close>

theorem replacement_resets_sequence:
  "settings (replace_settings H ns c) = ns
 \<and> CounterCore.count (replace_settings H ns c) = Settings.count ns
 \<and> sequence_presses (replace_settings H ns c) = 0
 \<and> burst_count_tracker (replace_settings H ns c) = 0
 \<and> run_turn H (c\<lparr>setting_q := ns # q\<rparr>) = replace_settings H ns (c\<lparr>setting_q := q\<rparr>)
 \<and> CounterCore.count (set_count v c) = v
 \<and> sequence_presses (set_count v c) = 0
 \<and> burst_count_tracker (set_count v c) = 0
 \<and> (MultiClick ns \<and> amount ns \<ge> 1 \<and> \<not> is_paused ns \<longrightarrow>
       snd (handle_inputs ts (replace_settings H ns c)) = None
     \<and> sequence_presses (fst (handle_inputs ts (replace_settings H ns c))) = int (length ts)
     \<and> CounterCore.count (fst (handle_inputs ts (replace_settings H ns c)))
          = Settings.count ns + int (length ts) div amount ns)
 \<and> (MultiClick (settings c) \<and> amount (settings c) \<ge> 1 \<and> \<not> is_paused (settings c) \<longrightarrow>
       snd (handle_inputs ts (set_count v c)) = None
     \<and> sequence_presses (fst (handle_inputs ts (set_count v c))) = int (length ts)
     \<and> CounterCore.count (fst (handle_inputs ts (set_count v c)))
          = v + int (length ts) div amount (settings c))"
    (is "?a \<and> ?b \<and> ?c \<and> ?d \<and> ?f \<and> ?g \<and> ?h \<and> ?i \<and> ?j \<and> ?k")
proof -
  have f: ?f by (simp add: run_turn_def)
  have j: ?j
    using multi_click_after_reset[of "replace_settings H ns c" ts]
    by (simp add: replace_settings_fields)
  have k: ?k
    using multi_click_after_reset[of "set_count v c" ts]
    by (simp add: set_count_fields)
  show ?thesis
    using f j k by (simp only: replace_settings_fields set_count_fields simp_thms)
qed

text \<open>
  Two presses into a Multi-Click sequence with \<open>amount = 4\<close>, the settings are replaced by
  the same values: two more presses do not advance the count, four do.
\<close>

theorem replacement_resets_sequence_witness:
  "MultiClick (tracking False 4 0) \<and> amount (tracking False 4 0) \<ge> 1
 \<and> \<not> is_paused (tracking False 4 0)
 \<and> settings (fst (handle_inputs [1000, 1100] (fresh_core False 4 0))) = tracking False 4 0
 \<and> sequence_presses (fst (handle_inputs [1000, 1100] (fresh_core False 4 0))) = 2
 \<and> sequence_presses (replace_settings True (tracking False 4 0)
        (fst (handle_inputs [1000, 1100] (fresh_core False 4 0)))) = 0
 \<and> CounterCore.count (fst (handle_inputs [1200, 1300]
        (replace_settings True (tracking False 4 0)
           (fst (handle_inputs [1000, 1100] (fresh_core False 4 0)))))) = 0
 \<and> sequence_presses (fst (handle_inputs [1200, 1300]
        (replace_settings True (tracking False 4 0)
           (fst (handle_inputs [1000, 1100] (fresh_core False 4 0)))))) = 2
 \<and> CounterCore.count (fst (handle_inputs [1200, 1300, 1400, 1500]
        (replace_settings True (tracking False 4 0)
           (fst (handle_inputs [1000, 1100] (fresh_core False 4 0)))))) = 1"
proof -
  have m: "MultiClick (tracking False 4 0)" "amount (tracking False 4 0) \<ge> 1"
    "\<not> is_paused (tracking False 4 0)" "amount (tracking False 4 0) = 4"
    "Settings.count (tracking False 4 0) = 0"
    by (simp_all add: tracking_def default_settings_def MultiClick_def)
  have two: "sequence_presses (fst (handle_inputs [1000, 1100] (fresh_core False 4 0))) = 2"
    by (simp add: example_defs step_defs)
  have st: "settings (fst (handle_inputs [1000, 1100] (fresh_core False 4 0))) = tracking False 4 0"
    by (simp add: handle_inputs_settings fresh_core_fields)
  from replacement_resets_sequence [where H = True and ns = "tracking False 4 0"
      and c = "fst (handle_inputs [1000, 1100] (fresh_core False 4 0))" and ts = "[1200, 1300]"]
    replacement_resets_sequence [where H = True and ns = "tracking False 4 0"
      and c = "fst (handle_inputs [1000, 1100] (fresh_core False 4 0))"
      and ts = "[1200, 1300, 1400, 1500]"]
  show ?thesis using m two st by simp
qed

lemma first_press_opens:
  "\<not> is_rapid_mode (settings c) \<Longrightarrow> sequence_presses c = 0
   \<Longrightarrow> sequence_presses (fst (handle_input t c)) = 1"
  by (simp add: step_defs)

text \<open>
  C10, for settings that are not Rapid and, for the count, not paused. Settings
  replacement and \<open>set_count\<close> leave \<open>last_press_time\<close> and \<open>last_scroll_time\<close> as they
  were. After a replacement by settings with \<open>is_rapid_mode\<close> off, the first press leaves
  \<open>sequence_presses = 1\<close> whatever its timestamp; so in Burst mode, when the incoming
  settings are not paused, it advances the count at once, even when less than
  \<open>burst_idle_ms\<close> has passed since the press before the replacement.
\<close>

theorem timestamps_survive_reset:
  "last_press_time (replace_settings H ns c) = last_press_time c
 \<and> last_scroll_time (replace_settings H ns c) = last_scroll_time c
 \<and> last_press_time (set_count v c) = last_press_time c
 \<and> last_scroll_time (set_count v c) = last_scroll_time c
 \<and> (\<not> is_rapid_mode ns \<longrightarrow>
       sequence_presses (fst (handle_input t (replace_settings H ns c))) = 1)
 \<and> (Burst ns \<and> \<not> is_paused ns \<longrightarrow>
       snd (handle_input t (replace_settings H ns c)) = None
     \<and> CounterCore.count (fst (handle_input t (replace_settings H ns c))) = Settings.count ns + 1)"
proof -
  have o: "\<not> is_rapid_mode ns \<longrightarrow>
       sequence_presses (fst (handle_input t (replace_settings H ns c))) = 1"
    using first_press_opens[of "replace_settings H ns c" t]
    by (simp add: replace_settings_fields)
  have b: "Burst ns \<and> \<not> is_paused ns \<longrightarrow>
       snd (handle_input t (replace_settings H ns c)) = None
     \<and> CounterCore.count (fst (handle_input t (replace_settings H ns c))) = Settings.count ns + 1"
    using first_step(1,4)[of "replace_settings H ns c" t]
    by (simp add: replace_settings_fields Burst_def)
  show ?thesis using o b by (simp only: replace_settings_fields set_count_fields simp_thms)
qed

text \<open>
  A press at 1000, a replacement by Burst settings (idle 500) carrying the count 7, and a
  press at 1010: the count becomes 8, although without the replacement the press at 1010
  would not have advanced it.
\<close>

theorem timestamps_survive_reset_witness:
  "\<not> is_rapid_mode ((tracking False 1 500)\<lparr>Settings.count := 7\<rparr>)
 \<and> Burst ((tracking False 1 500)\<lparr>Settings.count := 7\<rparr>)
 \<and> \<not> is_paused ((tracking False 1 500)\<lparr>Settings.count := 7\<rparr>)
 \<and> last_press_time (fst (handle_inputs [1000] (fresh_core False 1 500))) = 1000
 \<and> last_press_time (replace_settings True ((tracking False 1 500)\<lparr>Settings.count := 7\<rparr>)
       (fst (handle_inputs [1000] (fresh_core False 1 500)))) = 1000
 \<and> (1010::real) - 1000 < 500
 \<and> sequence_presses (fst (handle_input 1010
       (replace_settings True ((tracking False 1 500)\<lparr>Settings.count := 7\<rparr>)
          (fst (handle_inputs [1000] (fresh_core False 1 500)))))) = 1
 \<and> CounterCore.count (fst (handle_input 1010
       (replace_settings True ((tracking False 1 500)\<lparr>Settings.count := 7\<rparr>)
          (fst (handle_inputs [1000] (fresh_core False 1 500)))))) = 8
 \<and> CounterCore.count (fst (handle_input 1010
       (fst (handle_inputs [1000] (fresh_core False 1 500)))))
     = CounterCore.count (fst (handle_inputs [1000] (fresh_core False 1 500)))"
proof -
  have m: "\<not> is_rapid_mode ((tracking False 1 500)\<lparr>Settings.count := 7\<rparr>)"
    "Burst ((tracking False 1 500)\<lparr>Settings.count := 7\<rparr>)"
    "\<not> is_paused ((tracking False 1 500)\<lparr>Settings.count := 7\<rparr>)"
    "Settings.count ((tracking False 1 500)\<lparr>Settings.count := 7\<rparr>) = 7"
    by (simp_all add: tracking_def default_settings_def Burst_def)
  have l: "last_press_time (fst (handle_inputs [1000] (fresh_core False 1 500))) = 1000"
    by (simp add: example_defs step_defs)
  have n: "CounterCore.count (fst (handle_input 1010
       (fst (handle_inputs [1000] (fresh_core False 1 500)))))
     = CounterCore.count (fst (handle_inputs [1000] (fresh_core False 1 500)))"
    by (simp add: example_defs step_defs)
  from timestamps_survive_reset [where H = True
      and ns = "(tracking False 1 500)\<lparr>Settings.count := 7\<rparr>"
      and c = "fst (handle_inputs [1000] (fresh_core False 1 500))" and t = 1010]
  show ?thesis using m l n by simp
qed

text \<open>
  After a replacement by Rapid settings the first press leaves \<open>sequence_presses\<close> at 0,
  and after a replacement by paused Burst settings the first press does not advance the
  count.
\<close>

theorem first_press_after_replacement_counterexample:
  "sequence_presses (fst (handle_input 1010
       (replace_settings True (tracking True 1 0)
          (fst (handle_inputs [1000] (fresh_core False 1 500)))))) = 0
 \<and> Burst ((tracking False 1 500)\<lparr>is_paused := True\<rparr>)
 \<and> CounterCore.count (replace_settings True ((tracking False 1 500)\<lparr>is_paused := True\<rparr>)
       (fst (handle_inputs [1000] (fresh_core False 1 500)))) = 0
 \<and> CounterCore.count (fst (handle_input 1010
       (replace_settings True ((tracking False 1 500)\<lparr>is_paused := True\<rparr>)
          (fst (handle_inputs [1000] (fresh_core False 1 500)))))) = 0"
  by (simp add: example_defs step_defs Burst_def replace_settings_def)

section \<open>Wheel debounce\<close>

text \<open>\<open>_handle_input\<close> neither reads nor writes the wheel clock.\<close>

lemma update_count_scroll:
  "update_count d (c\<lparr>last_scroll_time := x\<rparr>) = (update_count d c)\<lparr>last_scroll_time := x\<rparr>"
  by (simp add: update_count_def update_q_put_def Let_def)

lemma prelude_scroll:
  "prelude t (c\<lparr>last_scroll_time := x\<rparr>) = (prelude t c)\<lparr>last_scroll_time := x\<rparr>"
  by (simp add: prelude_def increment_sequence_def sequence_reset_def update_q_put_def Let_def)

lemma apply_count_logic_scroll:
  "apply_count_logic (c\<lparr>last_scroll_time := x\<rparr>)
     = ((fst (apply_count_logic c))\<lparr>last_scroll_time := x\<rparr>, snd (apply_count_logic c))"
  by (simp add: apply_count_logic_def update_count_def update_q_put_def Let_def)

lemma handle_input_scroll_update:
  "handle_input t (c\<lparr>last_scroll_time := x\<rparr>)
     = ((fst (handle_input t c))\<lparr>last_scroll_time := x\<rparr>, snd (handle_input t c))"
proof (cases "is_rapid_mode (settings c)")
  case True
  then show ?thesis by (simp add: handle_input_def update_count_def update_q_put_def Let_def)
next
  case False
  then show ?thesis by (simp add: handle_input_def prelude_scroll apply_count_logic_scroll)
qed

text \<open>
  C7. A wheel event whose callback reads the clock less than 100 ms after
  \<open>last_scroll_time\<close>, the time of the last accepted wheel event, is dropped: the core is
  returned exactly as it was, \<open>last_scroll_time\<close> included. Key-down and button-down events
  on the tracked input always reach \<open>_handle_input\<close>, and what the two callbacks do with a
  key or button event does not depend on \<open>last_scroll_time\<close>. A wheel event in the tracked
  direction that is accepted at \<open>now\<close> is followed by acceptance of the next one at
  \<open>now + 150\<close>.
\<close>

theorem wheel_debounce:
  "(now - last_scroll_time c < 100 \<longrightarrow>
      mouse_callback now now' (WheelEvent delta) c = (c, None))
 \<and> (event_type ev = KEY_DOWN \<and> scan_code ev = input_code (settings c) \<longrightarrow>
      key_callback now ev c = handle_input now c)
 \<and> (button_name_map (input_code (settings c)) = Some b \<longrightarrow>
      mouse_callback now now' (ButtonEvent DOWN b) c = handle_input now' c)
 \<and> key_callback now ev (c\<lparr>last_scroll_time := x\<rparr>)
      = (let r = key_callback now ev c in ((fst r)\<lparr>last_scroll_time := x\<rparr>, snd r))
 \<and> mouse_callback now now' (ButtonEvent et b) (c\<lparr>last_scroll_time := x\<rparr>)
      = (let r = mouse_callback now now' (ButtonEvent et b) c
         in ((fst r)\<lparr>last_scroll_time := x\<rparr>, snd r))
 \<and> (((delta > 0 \<and> input_code (settings c) = 10) \<or> (delta < 0 \<and> input_code (settings c) = 11))
      \<and> now - last_scroll_time c \<ge> 100 \<longrightarrow>
        mouse_callback now now' (WheelEvent delta) c
          = handle_input now' (c\<lparr>last_scroll_time := now\<rparr>)
      \<and> mouse_callback (now + 150) now''  (WheelEvent delta)
            (fst (mouse_callback now now' (WheelEvent delta) c))
          = handle_input now''
              ((fst (mouse_callback now now' (WheelEvent delta) c))\<lparr>last_scroll_time := now + 150\<rparr>))"
proof -
  have w: "now - last_scroll_time c < 100 \<longrightarrow>
      mouse_callback now now' (WheelEvent delta) c = (c, None)"
    by (simp add: scroll_debounce_ms_def)
  have k: "event_type ev = KEY_DOWN \<and> scan_code ev = input_code (settings c) \<longrightarrow>
      key_callback now ev c = handle_input now c"
    by (simp add: key_callback_def)
  have b: "button_name_map (input_code (settings c)) = Some b \<longrightarrow>
      mouse_callback now now' (ButtonEvent DOWN b) c = handle_input now' c"
    by simp
  have ki: "key_callback now ev (c\<lparr>last_scroll_time := x\<rparr>)
      = (let r = key_callback now ev c in ((fst r)\<lparr>last_scroll_time := x\<rparr>, snd r))"
    by (simp add: key_callback_def handle_input_scroll_update Let_def)
  have bi: "mouse_callback now now' (ButtonEvent et b) (c\<lparr>last_scroll_time := x\<rparr>)
      = (let r = mouse_callback now now' (ButtonEvent et b) c
         in ((fst r)\<lparr>last_scroll_time := x\<rparr>, snd r))"
    by (simp add: handle_input_scroll_update Let_def split: option.split)
  have a: "((delta > 0 \<and> input_code (settings c) = 10) \<or> (delta < 0 \<and> input_code (settings c) = 11))
      \<and> now - last_scroll_time c \<ge> 100 \<longrightarrow>
        mouse_callback now now' (WheelEvent delta) c
          = handle_input now' (c\<lparr>last_scroll_time := now\<rparr>)
      \<and> mouse_callback (now + 150) now''  (WheelEvent delta)
            (fst (mouse_callback now now' (WheelEvent delta) c))
          = handle_input now''
              ((fst (mouse_callback now now' (WheelEvent delta) c))\<lparr>last_scroll_time := now + 150\<rparr>)"
  proof (intro impI)
    assume h: "((delta > 0 \<and> input_code (settings c) = 10) \<or> (delta < 0 \<and> input_code (settings c) = 11))
      \<and> now - last_scroll_time c \<ge> 100"
    let ?c1 = "fst (handle_input now' (c\<lparr>last_scroll_time := now\<rparr>))"
    have first: "mouse_callback now now' (WheelEvent delta) c
          = handle_input now' (c\<lparr>last_scroll_time := now\<rparr>)"
      using h by (simp add: scroll_debounce_ms_def)
    have s1: "settings ?c1 = settings c" "last_scroll_time ?c1 = now"
      by (simp_all add: handle_input_frame)
    have second: "mouse_callback (now + 150) now'' (WheelEvent delta) ?c1
          = handle_input now'' (?c1\<lparr>last_scroll_time := now + 150\<rparr>)"
      using h by (simp add: scroll_debounce_ms_def s1)
    show "mouse_callback now now' (WheelEvent delta) c
          = handle_input now' (c\<lparr>last_scroll_time := now\<rparr>)
      \<and> mouse_callback (now + 150) now''  (WheelEvent delta)
            (fst (mouse_callback now now' (WheelEvent delta) c))
          = handle_input now''
              ((fst (mouse_callback now now' (WheelEvent delta) c))\<lparr>last_scroll_time := now + 150\<rparr>)"
      unfolding first using second by simp
  qed
  show ?thesis by (intro conjI) (rule w k b ki bi a)+
qed

theorem wheel_debounce_witness:
  "input_code (settings (fresh_mouse_core 10)) = 10
 \<and> (1000::real) - last_scroll_time (fresh_mouse_core 10) \<ge> 100
 \<and> CounterCore.count (fst (mouse_callback 1000 1001 (WheelEvent 1) (fresh_mouse_core 10))) = 1
 \<and> last_scroll_time (fst (mouse_callback 1000 1001 (WheelEvent 1) (fresh_mouse_core 10))) = 1000
 \<and> (1050::real) - last_scroll_time (fst (mouse_callback 1000 1001 (WheelEvent 1) (fresh_mouse_core 10))) < 100
 \<and> mouse_callback 1050 1051 (WheelEvent 1)
       (fst (mouse_callback 1000 1001 (WheelEvent 1) (fresh_mouse_core 10)))
     = (fst (mouse_callback 1000 1001 (WheelEvent 1) (fresh_mouse_core 10)), None)
 \<and> CounterCore.count (fst (mouse_callback (1000 + 150) 1151 (WheelEvent 1)
       (fst (mouse_callback 1000 1001 (WheelEvent 1) (fresh_mouse_core 10))))) = 2
 \<and> last_scroll_time (fst (mouse_callback (1000 + 150) 1151 (WheelEvent 1)
       (fst (mouse_callback 1000 1001 (WheelEvent 1) (fresh_mouse_core 10))))) = 1150
 \<and> button_name_map (input_code (settings (fresh_mouse_core 1))) = Some LEFT
 \<and> CounterCore.count (fst (mouse_callback 1000 1001 (ButtonEvent DOWN LEFT) (fresh_mouse_core 1))) = 1
 \<and> CounterCore.count (fst (key_callback 1000 \<lparr>event_type = KEY_DOWN, scan_code = 44\<rparr>
       (fresh_core True 1 0))) = 1"
proof -
  let ?cm = "fresh_mouse_core 10"
  let ?c1 = "fst (mouse_callback 1000 1001 (WheelEvent 1) ?cm)"
  have f: "input_code (settings ?cm) = 10" "last_scroll_time ?cm = 0"
    by (simp_all add: fresh_mouse_core_def example_defs update_q_put_def)
  have h1: "((1::real) > 0 \<and> input_code (settings ?cm) = 10 \<or> (1::real) < 0 \<and> input_code (settings ?cm) = 11)
      \<and> (1000::real) - last_scroll_time ?cm \<ge> 100"
    by (simp add: f)
  have e1: "CounterCore.count (fst (handle_input 1001 (?cm\<lparr>last_scroll_time := 1000\<rparr>))) = 1"
    "last_scroll_time (fst (handle_input 1001 (?cm\<lparr>last_scroll_time := 1000\<rparr>))) = 1000"
    by (simp_all add: fresh_mouse_core_def example_defs step_defs)
  note A = wheel_debounce [where c = ?cm and now = 1000 and now' = 1001 and delta = 1
      and now'' = 1151, THEN conjunct2, THEN conjunct2, THEN conjunct2, THEN conjunct2,
      THEN conjunct2, THEN mp, OF h1]
  have c1: "CounterCore.count ?c1 = 1" "last_scroll_time ?c1 = 1000"
    unfolding A[THEN conjunct1] by (rule e1)+
  have h2: "(1050::real) - last_scroll_time ?c1 < 100" unfolding c1(2) by simp
  note B = wheel_debounce [where c = ?c1 and now = 1050 and now' = 1051 and delta = 1,
      THEN conjunct1, THEN mp, OF h2]
  have e2: "CounterCore.count (fst (handle_input 1151 (?c1\<lparr>last_scroll_time := 1000 + 150\<rparr>))) = 2"
    "last_scroll_time (fst (handle_input 1151 (?c1\<lparr>last_scroll_time := 1000 + 150\<rparr>))) = 1150"
    unfolding A[THEN conjunct1]
    by (simp_all add: fresh_mouse_core_def example_defs step_defs)
  have c2: "CounterCore.count (fst (mouse_callback (1000 + 150) 1151 (WheelEvent 1) ?c1)) = 2"
    "last_scroll_time (fst (mouse_callback (1000 + 150) 1151 (WheelEvent 1) ?c1)) = 1150"
    unfolding A[THEN conjunct2] by (rule e2)+
  have h3: "button_name_map (input_code (settings (fresh_mouse_core 1))) = Some LEFT"
    by (simp add: fresh_mouse_core_def example_defs update_q_put_def)
  note C = wheel_debounce [where c = "fresh_mouse_core 1" and now = 1000 and now' = 1001 and b = LEFT,
      THEN conjunct2, THEN conjunct2, THEN conjunct1, THEN mp, OF h3]
  have c3: "CounterCore.count (fst (mouse_callback 1000 1001 (ButtonEvent DOWN LEFT) (fresh_mouse_core 1))) = 1"
    unfolding C by (simp add: fresh_mouse_core_def example_defs step_defs)
  have h4: "event_type \<lparr>event_type = KEY_DOWN, scan_code = 44\<rparr> = KEY_DOWN
      \<and> scan_code \<lparr>event_type = KEY_DOWN, scan_code = 44\<rparr> = input_code (settings (fresh_core True 1 0))"
    by (simp add: fresh_core_fields tracking_def default_settings_def)
  note D = wheel_debounce [where c = "fresh_core True 1 0" and now = 1000
      and ev = "\<lparr>event_type = KEY_DOWN, scan_code = 44\<rparr>",
      THEN conjunct2, THEN conjunct1, THEN mp, OF h4]
  have c4: "CounterCore.count (fst (key_callback 1000 \<lparr>event_type = KEY_DOWN, scan_code = 44\<rparr>
       (fresh_core True 1 0))) = 1"
    unfolding D by (simp add: example_defs step_defs)
  have g: "(1000::real) - last_scroll_time ?cm \<ge> 100" using h1 by (rule conjunct2)
  show ?thesis
    by (intro conjI) (rule f(1) g c1 h2 B c2 h3 c3 c4)+
qed

section \<open>The \<open>sequence_presses\<close> message\<close>

lemma prelude_queue:
  "take (length (update_q c)) (update_q (prelude t c)) = update_q c"
  "length (filter is_sequence_presses (update_q (prelude t c)))
     = length (filter is_sequence_presses (update_q c))"
  by (simp_all add: prelude_def increment_sequence_def sequence_reset_def update_q_put_def Let_def)

lemma prelude_queue_length: "length (update_q c) \<le> length (update_q (prelude t c))"
  by (simp add: prelude_def increment_sequence_def sequence_reset_def update_q_put_def Let_def)

lemma count_logic_queue:
  assumes "burst_idle_ms (settings c) \<noteq> 0 \<or> amount (settings c) \<noteq> 0"
  shows "snd (apply_count_logic c) = None"
    and "sequence_presses (fst (apply_count_logic c)) = sequence_presses c"
    and "take (length (update_q c)) (update_q (fst (apply_count_logic c))) = update_q c"
    and "last (update_q (fst (apply_count_logic c)))
           = Sequence_presses_msg (sequence_presses (fst (apply_count_logic c)))"
    and "length (filter is_sequence_presses (update_q (fst (apply_count_logic c))))
           = length (filter is_sequence_presses (update_q c)) + 1"
  using assms
  by (auto simp add: apply_count_logic_def update_count_def update_q_put_def Let_def)

lemma take_take_prefix:
  assumes "take n ys = xs" "take (length ys) zs = ys" "n \<le> length ys"
  shows "take n zs = xs"
proof -
  have "take n zs = take n (take (length ys) zs)" using assms(3) by (simp add: min_def)
  then show ?thesis using assms(1,2) by simp
qed

text \<open>
  In Rapid mode a press queues the count message of \<open>_update_count\<close> (when not paused)
  and the Rapid status, and nothing else.
\<close>

lemma rapid_queue:
  assumes "is_rapid_mode (settings c)"
  shows "snd (handle_input t c) = None"
    and "sequence_presses (fst (handle_input t c)) = 0"
    and "update_q (fst (handle_input t c))
           = update_q c
             @ (if is_paused (settings c) then [] else [Count_msg (CounterCore.count c + 1)])
             @ [Status_msg Rapid_Mode_plus_1]"
  using assms by (simp_all add: step_defs)

text \<open>
  C9, as the code has it. With \<open>is_rapid_mode\<close> off (and settings on which step 3 does
  not divide by zero), every call of \<open>_handle_input\<close> keeps the messages already queued,
  appends exactly one \<open>sequence_presses\<close> message, and that message comes last and carries
  the value of \<open>sequence_presses\<close> after the press, whether or not the count advanced.
  With \<open>is_rapid_mode\<close> on, from any state and paused or not, a call keeps the messages
  already queued and appends no \<open>sequence_presses\<close> message at all: it appends the count
  message (when not paused) and the Rapid status, which comes last, and leaves
  \<open>sequence_presses\<close> at 0.
\<close>

theorem sequence_progress_reported:
  "(\<not> is_rapid_mode (settings c)
   \<and> (burst_idle_ms (settings c) \<noteq> 0 \<or> amount (settings c) \<noteq> 0) \<longrightarrow>
      snd (handle_input t c) = None
    \<and> sequence_presses (fst (handle_input t c)) = sequence_presses (prelude t c)
    \<and> take (length (update_q c)) (update_q (fst (handle_input t c))) = update_q c
    \<and> last (update_q (fst (handle_input t c)))
         = Sequence_presses_msg (sequence_presses (fst (handle_input t c)))
    \<and> length (filter is_sequence_presses (update_q (fst (handle_input t c))))
         = length (filter is_sequence_presses (update_q c)) + 1)
 \<and> (is_rapid_mode (settings c) \<longrightarrow>
      snd (handle_input t c) = None
    \<and> sequence_presses (fst (handle_input t c)) = 0
    \<and> update_q (fst (handle_input t c))
         = update_q c
           @ (if is_paused (settings c) then [] else [Count_msg (CounterCore.count c + 1)])
           @ [Status_msg Rapid_Mode_plus_1]
    \<and> take (length (update_q c)) (update_q (fst (handle_input t c))) = update_q c
    \<and> last (update_q (fst (handle_input t c))) = Status_msg Rapid_Mode_plus_1
    \<and> filter is_sequence_presses (update_q (fst (handle_input t c)))
         = filter is_sequence_presses (update_q c))"
    (is "(?nonrapid \<longrightarrow> ?reported) \<and> (?rapid \<longrightarrow> ?silent)")
proof (rule conjI)
  show "?rapid \<longrightarrow> ?silent"
  proof (rule impI)
    assume r: ?rapid
    note q = rapid_queue[OF r, of t]
    show ?silent unfolding q(3) using q(1,2) by simp
  qed
next
  show "?nonrapid \<longrightarrow> ?reported"
  proof (rule impI)
  assume h: "\<not> is_rapid_mode (settings c)
   \<and> (burst_idle_ms (settings c) \<noteq> 0 \<or> amount (settings c) \<noteq> 0)"
  have eq: "handle_input t c = apply_count_logic (prelude t c)" using h by (simp add: handle_input_def)
  have s: "settings (prelude t c) = settings c"
    by (simp add: prelude_def increment_sequence_def sequence_reset_def update_q_put_def Let_def)
  have a: "burst_idle_ms (settings (prelude t c)) \<noteq> 0 \<or> amount (settings (prelude t c)) \<noteq> 0"
    using h by (simp add: s)
  note q = count_logic_queue[OF a]
  have pre: "take (length (update_q c)) (update_q (fst (apply_count_logic (prelude t c)))) = update_q c"
    using prelude_queue(1) q(3) prelude_queue_length by (rule take_take_prefix)
  show "snd (handle_input t c) = None
    \<and> sequence_presses (fst (handle_input t c)) = sequence_presses (prelude t c)
    \<and> take (length (update_q c)) (update_q (fst (handle_input t c))) = update_q c
    \<and> last (update_q (fst (handle_input t c)))
         = Sequence_presses_msg (sequence_presses (fst (handle_input t c)))
    \<and> length (filter is_sequence_presses (update_q (fst (handle_input t c))))
         = length (filter is_sequence_presses (update_q c)) + 1"
    unfolding eq using q(1,2,4,5) pre prelude_queue(2)[of t c] by simp
  qed
qed

theorem sequence_progress_reported_witness:
  "is_rapid_mode (settings (fresh_core True 1 0))
 \<and> filter is_sequence_presses (update_q (fresh_core True 1 0)) = []
 \<and> filter is_sequence_presses (update_q (fst (handle_input 1000 (fresh_core True 1 0)))) = []
 \<and> last (update_q (fst (handle_input 1000 (fresh_core True 1 0)))) = Status_msg Rapid_Mode_plus_1
 \<and> is_rapid_mode (settings (fresh_core False 3 500)) = False
 \<and> burst_idle_ms (settings (fresh_core False 3 500)) = 500
 \<and> amount (settings (fresh_core False 3 500)) = 3
 \<and> update_q (fresh_core False 3 500) = [Status_msg (Tracking_Key 44)]
 \<and> CounterCore.count (fst (handle_input 1000 (fresh_core False 3 500))) = CounterCore.count (fresh_core False 3 500)
 \<and> update_q (fst (handle_input 1000 (fresh_core False 3 500)))
      = [Status_msg (Tracking_Key 44), Sequence_presses_msg 1]
 \<and> last (update_q (fst (handle_input 1000 (fresh_core False 3 500))))
      = Sequence_presses_msg (sequence_presses (fst (handle_input 1000 (fresh_core False 3 500))))"
proof -
  have h: "\<not> is_rapid_mode (settings (fresh_core False 3 500))
    \<and> (burst_idle_ms (settings (fresh_core False 3 500)) \<noteq> 0 \<or> amount (settings (fresh_core False 3 500)) \<noteq> 0)"
    by (simp add: fresh_core_fields tracking_def default_settings_def)
  have e: "update_q (fresh_core False 3 500) = [Status_msg (Tracking_Key 44)]"
    "CounterCore.count (fst (handle_input 1000 (fresh_core False 3 500))) = CounterCore.count (fresh_core False 3 500)"
    "update_q (fst (handle_input 1000 (fresh_core False 3 500)))
      = [Status_msg (Tracking_Key 44), Sequence_presses_msg 1]"
    by (simp_all add: example_defs step_defs)
  note T = sequence_progress_reported [where c = "fresh_core False 3 500" and t = 1000,
      THEN conjunct1, THEN mp, OF h]
  have r: "is_rapid_mode (settings (fresh_core True 1 0))"
    by (simp add: fresh_core_fields tracking_def default_settings_def)
  note R = sequence_progress_reported [where c = "fresh_core True 1 0" and t = 1000,
      THEN conjunct2, THEN mp, OF r]
  have q0: "filter is_sequence_presses (update_q (fresh_core True 1 0)) = []"
    by (simp add: example_defs update_q_put_def)
  have q1: "filter is_sequence_presses (update_q (fst (handle_input 1000 (fresh_core True 1 0)))) = []"
    using R q0 by simp
  have q2: "last (update_q (fst (handle_input 1000 (fresh_core True 1 0)))) = Status_msg Rapid_Mode_plus_1"
    using R by simp
  have l: "last (update_q (fst (handle_input 1000 (fresh_core False 3 500))))
      = Sequence_presses_msg (sequence_presses (fst (handle_input 1000 (fresh_core False 3 500))))"
    using T by simp
  have g: "is_rapid_mode (settings (fresh_core False 3 500)) = False"
    "burst_idle_ms (settings (fresh_core False 3 500)) = 500"
    "amount (settings (fresh_core False 3 500)) = 3"
    by (simp_all add: fresh_core_fields tracking_def default_settings_def)
  show ?thesis by (intro conjI) (rule r q0 q1 q2 g e l)+
qed

text \<open>In Rapid mode a press queues a count and a status message and nothing else.\<close>

theorem rapid_reports_no_progress_counterexample:
  "is_rapid_mode (settings (fresh_core True 1 0))
 \<and> update_q (fresh_core True 1 0) = [Status_msg (Tracking_Key 44)]
 \<and> update_q (fst (handle_input 1000 (fresh_core True 1 0)))
      = [Status_msg (Tracking_Key 44), Count_msg 1, Status_msg Rapid_Mode_plus_1]
 \<and> filter is_sequence_presses (update_q (fst (handle_input 1000 (fresh_core True 1 0)))) = []
 \<and> snd (handle_input 1000 (fresh_core True 1 0)) = None"
  by (simp add: example_defs step_defs)

section \<open>Clamping at settings ingestion\<close>

text \<open>
  What does hold: \<open>apply_inputs\<close> clamps both attributes, and \<open>load_or_default\<close> clamps
  \<open>amount\<close>.
\<close>

lemma apply_inputs_clamps:
  "amount (apply_inputs v s) \<ge> 1 \<and> burst_idle_ms (apply_inputs v s) \<ge> 0"
  by (simp add: apply_inputs_def)

lemma load_or_default_amount: "amount (load_or_default f) \<ge> 1"
  by (cases f) (simp_all add: load_or_default_def default_settings_def Let_def)

text \<open>
  C8 fails on the loading path. \<open>load_or_default\<close> applies \<open>max(1, ...)\<close> to \<open>amount\<close> only,
  where \<open>apply_inputs\<close> also applies \<open>max(0, ...)\<close> to \<open>burst_idle_ms\<close>. A configuration
  file \<open>{"is_rapid_mode": false, "burst_idle_ms": -5}\<close> is therefore loaded with
  \<open>burst_idle_ms = -5\<close>, and the core built from it, whose hooks are installed by its
  constructor, classifies presses against that value for as long as it stays (step 2a
  never closes a sequence, step 3 takes the Burst branch, so of the presses made meanwhile
  only the first counts), whereas the panel turns the same \<open>-5\<close> into \<open>0\<close> as soon as it
  applies its inputs.
\<close>

theorem load_keeps_negative_idle:
  "burst_idle_ms (load_or_default
      (Json (empty_object\<lparr>j_is_rapid_mode := Some False, j_burst_idle_ms := Some (- 5)\<rparr>))) = - 5
 \<and> amount (load_or_default
      (Json (empty_object\<lparr>j_is_rapid_mode := Some False, j_burst_idle_ms := Some (- 5)\<rparr>))) = 1
 \<and> \<not> is_rapid_mode (load_or_default
      (Json (empty_object\<lparr>j_is_rapid_mode := Some False, j_burst_idle_ms := Some (- 5)\<rparr>)))
 \<and> burst_idle_ms (settings (fst (handle_input 1000 (init_core True (load_or_default
      (Json (empty_object\<lparr>j_is_rapid_mode := Some False, j_burst_idle_ms := Some (- 5)\<rparr>))))))) = - 5
 \<and> CounterCore.count (fst (handle_inputs [1000, 5000, 9000] (init_core True (load_or_default
      (Json (empty_object\<lparr>j_is_rapid_mode := Some False, j_burst_idle_ms := Some (- 5)\<rparr>)))))) = 1
 \<and> burst_idle_ms (apply_inputs \<lparr>rapid_mode_var = False, amount_var = 1, burst_idle_var = - 5\<rparr>
      default_settings) = 0"
  by (simp add: load_or_default_def setattr_all_def rename_group_n_def empty_object_def
        apply_inputs_def example_defs step_defs)

end
